theory Spec2Isabelle
  imports Complex_Main "HOL-Library.Char_ord" "HOL-Library.List_Lexorder"
    "HOL-Library.Multiset"
begin

section \<open>Numbers, tensors and conditioning segments\<close>

text \<open>
  Python floats are modelled by exact rationals: every percentage, weight and blend factor is a
  \<^typ>\<open>rat\<close>, and arithmetic on them is exact. \<open>round(x, n)\<close> of Python rounds to the
  nearest multiple of \<open>10^-n\<close>, ties to the even one; \<open>int(x)\<close> truncates towards zero.
\<close>

datatype error =
  FormatError | UnboundLocalError | ZeroDivisionError | IndexError | ValueError
  | RuntimeError | AssertionError

definition round_half_even :: "rat \<Rightarrow> int" where
  "round_half_even q =
     (let f = \<lfloor>q\<rfloor>; d = q - of_int f
      in if d < 1 / 2 then f else if 1 / 2 < d then f + 1 else if even f then f else f + 1)"

definition py_round2 :: "rat \<Rightarrow> rat" where
  "py_round2 q = of_int (round_half_even (q * 100)) / 100"

definition py_int :: "rat \<Rightarrow> int" where
  "py_int q = (if 0 \<le> q then \<lfloor>q\<rfloor> else \<lceil>q\<rceil>)"

text \<open>
  A conditioning tensor is the list of its entries along the dimension that \<open>equalize\<close> pads;
  addition, subtraction and scaling are entrywise. Its entries are finite floats, each taken as
  the rational it denotes; entries that are infinite or not a number are treated apart, with
  the type \<open>xfloat\<close> below. A mask is a tensor of shape \<open>(1, h, w)\<close>: a list of planes, each
  a list of \<open>h\<close> rows of \<open>w\<close> entries.
\<close>

type_synonym tensor = "rat list"
type_synonym mask_tensor = "rat list list list"

definition tadd :: "tensor \<Rightarrow> tensor \<Rightarrow> tensor" where
  "tadd a b = map2 (+) a b"

definition tsub :: "tensor \<Rightarrow> tensor \<Rightarrow> tensor" where
  "tsub a b = map2 (-) a b"

definition tscale :: "tensor \<Rightarrow> rat \<Rightarrow> tensor" where
  "tscale a k = map (\<lambda>v. v * k) a"

text \<open>
  Modelled from the spec: \<open>utils.equalize\<close> is not among the sources. The spec gives its
  contract: the shorter tensors are padded to the length of the longest by repeating their last
  element, nothing is truncated, and tensors of equal length come back unchanged. An empty
  tensor has no last element and is left as it is.
\<close>

definition pad_to :: "nat \<Rightarrow> tensor \<Rightarrow> tensor" where
  "pad_to n t = (if t = [] then [] else t @ replicate (n - length t) (last t))"

definition equalize :: "tensor list \<Rightarrow> tensor list" where
  "equalize ts = map (pad_to (foldr max (map length ts) 0)) ts"

definition equalize2 :: "tensor \<Rightarrow> tensor \<Rightarrow> tensor \<times> tensor" where
  "equalize2 a b = (pad_to (max (length a) (length b)) a, pad_to (max (length a) (length b)) b)"

datatype area = Percentage rat rat rat rat | Pixels int int int int

record sdxl_opts =
  width :: int
  height :: int
  target_width :: int
  target_height :: int
  crop_w :: int
  crop_h :: int

text \<open>
  The \<open>prompt\<close> entry of a segment is either a prompt text or the annotation
  \<open>linear:<1 - factor> / <factor>\<close> written by the interpolator.
\<close>

datatype prompt_note = Text string | Linear rat rat

text \<open>
  The metadata dictionary of a conditioning segment: one optional field per key the program
  writes, \<open>None\<close> for an absent key. The six resolution keys are written together or not at
  all, so they form one optional group.
\<close>

record meta =
  prompt :: "prompt_note option"
  start_percent :: "rat option"
  end_percent :: "rat option"
  pooled_output :: "tensor option"
  strength :: "rat option"
  area :: "area option"
  set_area_to_bounds :: "bool option"
  mask :: "mask_tensor option"
  mask_strength :: "rat option"
  sdxl :: "sdxl_opts option"

definition empty_meta :: meta where
  "empty_meta = \<lparr>prompt = None, start_percent = None, end_percent = None,
     pooled_output = None, strength = None, area = None, set_area_to_bounds = None,
     mask = None, mask_strength = None, sdxl = None\<rparr>"

type_synonym cond = "tensor \<times> meta"

section \<open>Text helpers\<close>

text \<open>
  Strings are lists of bytes. \<open>str.strip\<close> and the pattern \<open>\s\<close> take the ASCII white
  space characters (codes 9 to 13 and 28 to 32), \<open>\d\<close> the ASCII digits and \<open>\w\<close> the
  ASCII letters, digits and the underscore; characters outside ASCII are not modelled.
\<close>

definition is_space :: "char \<Rightarrow> bool" where
  "is_space c = (let n = (of_char c :: nat) in (9 \<le> n \<and> n \<le> 13) \<or> (28 \<le> n \<and> n \<le> 32))"

definition is_digit :: "char \<Rightarrow> bool" where
  "is_digit c = (let n = (of_char c :: nat) in 48 \<le> n \<and> n \<le> 57)"

definition is_alpha :: "char \<Rightarrow> bool" where
  "is_alpha c = (let n = (of_char c :: nat) in (65 \<le> n \<and> n \<le> 90) \<or> (97 \<le> n \<and> n \<le> 122))"

definition is_word :: "char \<Rightarrow> bool" where
  "is_word c = (is_alpha c \<or> is_digit c \<or> c = CHR ''_'')"

definition strip :: "string \<Rightarrow> string" where
  "strip s = rev (dropWhile is_space (rev (dropWhile is_space s)))"

fun starts_with :: "string \<Rightarrow> string \<Rightarrow> bool" where
  "starts_with [] s = True"
| "starts_with (p # ps) [] = False"
| "starts_with (p # ps) (c # cs) = (p = c \<and> starts_with ps cs)"

text \<open>\<open>sub in s\<close>.\<close>

fun contains :: "string \<Rightarrow> string \<Rightarrow> bool" where
  "contains sub [] = (sub = [])"
| "contains sub (c # cs) = (starts_with sub (c # cs) \<or> contains sub cs)"

text \<open>
  \<open>s.replace(old, "")\<close> for a non-empty \<open>old\<close>: the occurrences are removed from left to
  right without overlap. \<open>skip\<close> counts the characters of an occurrence still to be dropped.
\<close>

fun remove_from :: "string \<Rightarrow> nat \<Rightarrow> string \<Rightarrow> string" where
  "remove_from old skip [] = []"
| "remove_from old skip (c # cs) =
     (if 0 < skip then remove_from old (skip - 1) cs
      else if starts_with old (c # cs) then remove_from old (length old - 1) cs
      else c # remove_from old 0 cs)"

definition remove_all :: "string \<Rightarrow> string \<Rightarrow> string" where
  "remove_all old s = remove_from old 0 s"

fun split_on :: "char \<Rightarrow> string \<Rightarrow> string list" where
  "split_on d [] = [[]]"
| "split_on d (c # cs) =
     (case split_on d cs of
        [] \<Rightarrow> (if c = d then [[], []] else [[c]])
      | w # ws \<Rightarrow> (if c = d then [] # w # ws else (c # w) # ws))"

text \<open>The non-empty pieces of a text between runs of white space.\<close>

fun split_space :: "string \<Rightarrow> string list" where
  "split_space [] = []"
| "split_space (c # cs) =
     (if is_space c then split_space cs
      else (case split_space cs of
              [] \<Rightarrow> [[c]]
            | w # ws \<Rightarrow>
                (case cs of
                   [] \<Rightarrow> [c] # w # ws
                 | c' # cs' \<Rightarrow> if is_space c' then [c] # w # ws else (c # w) # ws)))"

definition digits_value :: "string \<Rightarrow> int" where
  "digits_value ds = foldl (\<lambda>a c. 10 * a + (of_char c - 48)) 0 ds"

text \<open>
  \<open>float(s)\<close> on a text: surrounding white space is ignored, then an optional sign and a
  decimal numeral with at least one digit (\<open>12\<close>, \<open>12.\<close>, \<open>1.5\<close>, \<open>.5\<close>). \<open>None\<close> stands for
  \<open>ValueError\<close>. Exponents, \<open>inf\<close> and \<open>nan\<close> are not modelled and count as failures.
\<close>

definition py_float :: "string \<Rightarrow> rat option" where
  "py_float s =
     (let t = strip s;
          neg = starts_with ''-'' t;
          body = (if starts_with ''-'' t \<or> starts_with ''+'' t then tl t else t);
          ip = takeWhile is_digit body;
          rest = dropWhile is_digit body;
          fp = (case rest of
                  [] \<Rightarrow> Some []
                | c # r \<Rightarrow> if c = CHR ''.'' \<and> list_all is_digit r then Some r else None)
      in case fp of
           None \<Rightarrow> None
         | Some f \<Rightarrow>
             if ip = [] \<and> f = [] then None
             else Some ((if neg then - 1 else 1)
                        * (of_int (digits_value ip) + of_int (digits_value f) / 10 ^ length f)))"

text \<open>\<open>int(s)\<close> on a text: an optional sign and at least one digit, nothing else.\<close>

definition py_int_of_string :: "string \<Rightarrow> int option" where
  "py_int_of_string s =
     (let t = strip s;
          neg = starts_with ''-'' t;
          body = (if starts_with ''-'' t \<or> starts_with ''+'' t then tl t else t)
      in if body \<noteq> [] \<and> list_all is_digit body
         then Some ((if neg then - 1 else 1) * digits_value body)
         else None)"

section \<open>The directive extractor\<close>

text \<open>
  Modelled from the spec: \<open>utils.get_function\<close>, \<open>utils.parse_floats\<close> and
  \<open>utils.safe_float\<close> are not among the sources. The spec gives their contract. A directive
  is written \<open>NAME(arg1, arg2, ...)\<close>; every occurrence is removed from the text and its
  arguments are returned, in source order; arguments that are missing at the end are filled
  from the defaults by position; a text without the directive is returned unchanged with no
  argument tuple. The arguments of an occurrence are the pieces of its body between commas,
  without surrounding white space, and as many of them as there are defaults; an empty body
  has no argument.
\<close>

function scan_directive :: "string \<Rightarrow> string \<Rightarrow> string \<times> string list" where
  "scan_directive name [] = ([], [])"
| "scan_directive name (c # cs) =
     (if starts_with (name @ ''('') (c # cs)
         \<and> CHR '')'' \<in> set (drop (length name + 1) (c # cs))
      then (let body = takeWhile (\<lambda>x. x \<noteq> CHR '')'') (drop (length name + 1) (c # cs));
                (rest, found) = scan_directive name
                   (tl (dropWhile (\<lambda>x. x \<noteq> CHR '')'') (drop (length name + 1) (c # cs))))
            in (rest, body # found))
      else (let (rest, found) = scan_directive name cs in (c # rest, found)))"
  by pat_completeness auto
termination
proof (relation "measure (\<lambda>(name, s). length s)")
  fix name :: string and c :: char and cs :: string
  have "length (dropWhile (\<lambda>x. x \<noteq> CHR '')'') (drop (length name + 1) (c # cs))) \<le> length cs"
    using length_dropWhile_le [of "\<lambda>x. x \<noteq> CHR '')''" "drop (length name + 1) (c # cs)"]
    by simp
  then show "((name, tl (dropWhile (\<lambda>x. x \<noteq> CHR '')'') (drop (length name + 1) (c # cs)))),
              name, c # cs) \<in> measure (\<lambda>(name, s). length s)"
    by simp
qed simp_all

fun fill_args :: "string list \<Rightarrow> string list \<Rightarrow> string list" where
  "fill_args args [] = []"
| "fill_args [] (d # ds) = d # ds"
| "fill_args (a # args) (d # ds) = a # fill_args args ds"

definition get_function :: "string \<Rightarrow> string \<Rightarrow> string list \<Rightarrow> string \<times> string list list" where
  "get_function text name defaults =
     (let (rest, found) = scan_directive name text
      in (rest,
          map (\<lambda>body. fill_args (if body = [] then [] else map strip (split_on CHR '','' body))
                        defaults) found))"

text \<open>
  A pair of numbers written as two numerals separated by white space; any failure to parse
  gives the default pair.
\<close>

definition parse_floats :: "string \<Rightarrow> rat \<times> rat \<Rightarrow> rat \<times> rat" where
  "parse_floats s defaults =
     (case map py_float (split_space s) of
        [Some a, Some b] \<Rightarrow> (a, b)
      | _ \<Rightarrow> defaults)"

definition safe_float :: "string \<Rightarrow> rat \<Rightarrow> rat" where
  "safe_float s dflt = (case py_float s of Some v \<Rightarrow> v | None \<Rightarrow> dflt)"

text \<open>
  \<open>get_sdxl\<close>. The options are returned as \<open>None\<close> for the empty dictionary. The entry
  \<open>target_height\<close> is computed from \<open>tw\<close>, as in the source.
\<close>

definition get_sdxl :: "string \<Rightarrow> string \<times> sdxl_opts option" where
  "get_sdxl text =
     (case get_function text ''SDXL'' ['''', ''1024 1024'', ''1024 1024'', ''0 0''] of
        (text', []) \<Rightarrow> (text', None)
      | (text', args # others) \<Rightarrow>
          (let (w, h) = parse_floats (args ! 0) (1024, 1024);
               (tw, th) = parse_floats (args ! 1) (1024, 1024);
               (cropw, croph) = parse_floats (args ! 2) (0, 0)
           in (text',
               Some \<lparr>width = py_int w, height = py_int h,
                     target_width = py_int tw, target_height = py_int tw,
                     crop_w = py_int cropw, crop_h = py_int croph\<rparr>)))"

text \<open>
  \<open>get_style\<close>; the lists of available styles and normalizations depend on an optional
  import and are parameters.
\<close>

definition get_style ::
  "string list \<Rightarrow> string list \<Rightarrow> string \<Rightarrow> string \<Rightarrow> string \<Rightarrow> string \<times> string \<times> string" where
  "get_style available_styles available_normalizations text default_style default_normalization =
     (case get_function text ''STYLE'' [default_style, default_normalization] of
        (text', []) \<Rightarrow> (default_style, default_normalization, text')
      | (text', args # others) \<Rightarrow>
          ((if args ! 0 \<in> set available_styles then args ! 0 else default_style),
           (if args ! 1 \<in> set available_normalizations then args ! 1
            else default_normalization),
           text'))"

definition is_pct :: "rat \<Rightarrow> bool" where
  "is_pct f = (0 \<le> f \<and> f \<le> 1)"

definition is_pixel :: "rat \<Rightarrow> bool" where
  "is_pixel f = (f = 0 \<or> 1 < f)"

definition get_area :: "string \<Rightarrow> error + (string \<times> (area \<times> rat) option)" where
  "get_area text =
     (case get_function text ''AREA'' [''0 1'', ''0 1'', ''1''] of
        (text', []) \<Rightarrow> Inr (text', None)
      | (text', args # others) \<Rightarrow>
          (let (x, w) = parse_floats (args ! 0) (0, 1);
               (y, h) = parse_floats (args ! 1) (0, 1);
               weight = safe_float (args ! 2) 1
           in if list_all is_pct [h, w, y, x]
              then Inr (text', Some (Percentage h w y x, weight))
              else if list_all is_pixel [h, w, y, x]
              then Inr (text', Some (Pixels (py_int h div 8) (py_int w div 8)
                                            (py_int y div 8) (py_int x div 8), weight))
              else Inl FormatError))"

text \<open>\<open>int(w)\<close> and \<open>int(h)\<close> on the argument texts raise \<open>ValueError\<close>.\<close>

definition get_mask_size :: "string \<Rightarrow> error + (string \<times> int \<times> int)" where
  "get_mask_size text =
     (case get_function text ''MASK_SIZE'' [''512'', ''512''] of
        (text', []) \<Rightarrow> Inr (text', (512, 512))
      | (text', args # others) \<Rightarrow>
          (case (py_int_of_string (args ! 0), py_int_of_string (args ! 1)) of
             (Some w, Some h) \<Rightarrow> Inr (text', (w, h))
           | _ \<Rightarrow> Inl ValueError))"

text \<open>
  A slice \<open>a:b\<close> of a dimension of size \<open>n\<close> holds the indices from the clamped \<open>a\<close> up to,
  not including, the clamped \<open>b\<close>; a negative bound counts from the end.
\<close>

definition slice_bound :: "int \<Rightarrow> int \<Rightarrow> int" where
  "slice_bound n i = (if i < 0 then max 0 (i + n) else min i n)"

definition in_slice :: "int \<Rightarrow> int \<Rightarrow> int \<Rightarrow> int \<Rightarrow> bool" where
  "in_slice n a b i = (slice_bound n a \<le> i \<and> i < slice_bound n b)"

text \<open>
  \<open>mask = torch.full((1, h, w), 0)\<close> followed by \<open>mask[ys[0]:ys[1], xs[0]:xs[1]] = 1\<close>.
  The tensor has three dimensions and the assignment indexes the first two: the slice
  \<open>ys\<close> selects planes (of which there is one, with index 0), the slice \<open>xs\<close> selects rows
  (of which there are \<open>h\<close>), and all \<open>w\<close> columns of a selected row are set.
\<close>

definition make_mask :: "int \<Rightarrow> int \<Rightarrow> int \<times> int \<Rightarrow> int \<times> int \<Rightarrow> mask_tensor" where
  "make_mask w h ys xs =
     map (\<lambda>plane.
       map (\<lambda>row.
         map (\<lambda>col. if in_slice 1 (fst ys) (snd ys) plane \<and> in_slice h (fst xs) (snd xs) row
                      then 1 else 0)
           [0..w - 1])
         [0..h - 1])
       [0..0]"

text \<open>
  \<open>get_mask\<close>: \<open>None\<close> for the mask and its weight when the text has no \<open>MASK\<close> directive.
  \<open>torch.full\<close> raises \<open>RuntimeError\<close> on a negative dimension.
\<close>

definition get_mask :: "string \<Rightarrow> int \<times> int \<Rightarrow> error + (string \<times> (mask_tensor \<times> rat) option)" where
  "get_mask text mask_size =
     (case get_function text ''MASK'' [''0 1'', ''0 1'', ''1''] of
        (text', []) \<Rightarrow> Inr (text', None)
      | (text', args # others) \<Rightarrow>
          (let (x1, x2) = parse_floats (args ! 0) (0, 1);
               (y1, y2) = parse_floats (args ! 1) (0, 1);
               weight = safe_float (args ! 2) 1;
               (w, h) = mask_size
           in if list_all is_pct [x1, x2, y1, y2]
              then (if w < 0 \<or> h < 0 then Inl RuntimeError
                    else Inr (text',
                      Some (make_mask w h (py_int (of_int h * y1), py_int (of_int h * y2))
                                          (py_int (of_int w * x1), py_int (of_int w * x2)),
                            weight)))
              else if list_all is_pixel [x1, x2, y1, y2]
              then (if w < 0 \<or> h < 0 then Inl RuntimeError
                    else Inr (text',
                      Some (make_mask w h (py_int y1, py_int y2) (py_int x1, py_int x2),
                            weight)))
              else Inl FormatError))"

section \<open>The weighted multi-prompt encoder\<close>

text \<open>
  The encoder handle is represented by the LoRAs applied to the original handle, in the order
  of their application. What lies outside the sources is a parameter: the token encoder behind
  \<open>encode_prompt\<close> (given the handle, the text, the style and the normalization it returns
  the tensor and the optional pooled output), the normal random tensors of \<open>torch.randn\<close>
  (given the seed of the generator, the number of earlier draws from it and the size), the
  available styles and normalizations, \<open>str\<close> on a LoRA weight, and the names of the LoRAs
  that were loaded.
\<close>

type_synonym clip = "(string \<times> rat) list"

record externals =
  encode_prompt :: "clip \<Rightarrow> string \<Rightarrow> string \<Rightarrow> string \<Rightarrow> tensor \<times> tensor option"
  randn :: "int option \<Rightarrow> nat \<Rightarrow> nat \<Rightarrow> tensor"
  available_styles :: "string list"
  available_normalizations :: "string list"
  str_of_weight :: "rat \<Rightarrow> string"
  loaded_loras :: "string list"

text \<open>
  \<open>get_noise\<close>: \<open>None\<close> when the text has no \<open>NOISE\<close> directive, else the clamped sum of
  the weights and the generator, given by the seed of the first directive (\<open>None\<close> for the
  unseeded global generator).
\<close>

definition get_noise :: "string \<Rightarrow> string \<times> (rat \<times> int option) option" where
  "get_noise text =
     (case get_function text ''NOISE'' [''0.0'', ''none''] of
        (text', []) \<Rightarrow> (text', None)
      | (text', args # others) \<Rightarrow>
          (text',
           Some (max (min (sum_list (map (\<lambda>n. safe_float (n ! 0) 0) (args # others))) 1) 0,
                 map_option py_int (py_float (args ! 1)))))"

text \<open>
  \<open>apply_noise\<close> on a tensor that is not \<open>None\<close>; \<open>k\<close> is the number of earlier draws
  from the generator.
\<close>

definition apply_noise :: "externals \<Rightarrow> nat \<Rightarrow> tensor \<Rightarrow> (rat \<times> int option) option \<Rightarrow> tensor" where
  "apply_noise ext k cnd noise =
     (case noise of
        None \<Rightarrow> cnd
      | Some (weight, gen) \<Rightarrow>
          if weight = 0 then cnd
          else tadd (tscale cnd (1 - weight)) (tscale (randn ext gen k (length cnd)) weight))"

text \<open>
  The pattern \<open>(-?\d\.?\d*)(![A-Za-z]+)?$\<close> against the text that follows a colon: the
  number text and the optional tag. \<open>$\<close> also matches before a final newline.
\<close>

definition weight_suffix :: "string \<Rightarrow> (string \<times> string option) option" where
  "weight_suffix r =
     (let r1 = (if r \<noteq> [] \<and> last r = CHR 0x0A then butlast r else r);
          sign = (if starts_with ''-'' r1 then ''-'' else []);
          r2 = drop (length sign) r1
      in case r2 of
           [] \<Rightarrow> None
         | d # r3 \<Rightarrow>
             if \<not> is_digit d then None
             else
               (let dot = (if starts_with ''.'' r3 then ''.'' else []);
                    r4 = drop (length dot) r3;
                    ds = takeWhile is_digit r4;
                    r5 = dropWhile is_digit r4
                in case r5 of
                     [] \<Rightarrow> Some (sign @ [d] @ dot @ ds, None)
                   | c # letters \<Rightarrow>
                       if c = CHR ''!'' \<and> letters \<noteq> [] \<and> list_all is_alpha letters
                       then Some (sign @ [d] @ dot @ ds, Some (c # letters))
                       else None))"

text \<open>\<open>re.search\<close>: the leftmost colon whose rest matches; \<open>pre\<close> is the text before it.\<close>

fun weight_search :: "string \<Rightarrow> string \<Rightarrow> (string \<times> string \<times> string option) option" where
  "weight_search pre [] = None"
| "weight_search pre (c # cs) =
     (if c = CHR '':''
      then (case weight_suffix cs of
              Some (num, tag) \<Rightarrow> Some (pre, num, tag)
            | None \<Rightarrow> weight_search (pre @ [c]) cs)
      else weight_search (pre @ [c]) cs)"

text \<open>
  The local function \<open>weight\<close> of \<open>do_encode\<close>: the weight, whether \<open>opts\<close> holds
  \<open>scale = 1\<close> (the tag is \<open>!noscale\<close>), and the text without the suffix. The matched number
  text always parses.
\<close>

definition weight :: "string \<Rightarrow> rat \<times> bool \<times> string" where
  "weight t =
     (case weight_search [] t of
        None \<Rightarrow> (1, False, t)
      | Some (pre, num, tag) \<Rightarrow> (safe_float num 1, tag = Some ''!noscale'', pre))"

text \<open>
  \<open>re.split(r"\bAND\b", text)\<close>. \<open>prev_word\<close> tells whether the character before the
  current position is a word character; \<open>skip\<close> counts the characters of a matched
  \<open>AND\<close> still to be dropped.
\<close>

fun split_AND :: "bool \<Rightarrow> nat \<Rightarrow> string \<Rightarrow> string list" where
  "split_AND prev_word skip [] = [[]]"
| "split_AND prev_word skip (c # cs) =
     (if 0 < skip then split_AND (is_word c) (skip - 1) cs
      else if \<not> prev_word \<and> starts_with ''AND'' (c # cs)
              \<and> (case drop 2 cs of [] \<Rightarrow> True | d # ds \<Rightarrow> \<not> is_word d)
      then [] # split_AND True 2 cs
      else (case split_AND (is_word c) 0 cs of
              [] \<Rightarrow> [[c]]
            | w # ws \<Rightarrow> (c # w) # ws))"

text \<open>\<open>sum\<close> of a non-empty list of tensors (the initial \<open>0\<close> is absorbed by the first).\<close>

definition tsum :: "tensor list \<Rightarrow> tensor" where
  "tsum ts = (case ts of [] \<Rightarrow> [] | t # rest \<Rightarrow> foldl tadd t rest)"

text \<open>
  The loop of \<open>do_encode\<close> over the sub-prompts. It carries \<open>text\<close>, from which
  \<open>get_noise\<close> extracts in every pass, and returns what the passes append to \<open>conds\<close> and
  to \<open>res\<close>. \<open>p\<close> is the variable \<open>p\<close> of \<open>do_encode\<close>, the first sub-prompt after
  \<open>get_sdxl\<close>: both calls \<open>get_sdxl(p)\<close> in the loop assign its text to \<open>prompt\<close>, so the
  text that is encoded and stored under \<open>prompt\<close> is that of \<open>p\<close>. The division
  \<open>w / s\<close> raises \<open>ZeroDivisionError\<close> on a zero divisor.
\<close>

fun encode_loop ::
  "externals \<Rightarrow> clip \<Rightarrow> string \<Rightarrow> string \<Rightarrow> int \<times> int \<Rightarrow> bool \<Rightarrow> string \<Rightarrow>
   sdxl_opts option \<Rightarrow> rat \<Rightarrow> string list \<Rightarrow> string \<Rightarrow>
   error + (cond list \<times> (tensor \<times> tensor option \<times> rat) list)" where
  "encode_loop ext clp style normalization mask_size alt_method p sdxl_options scale [] text =
     Inr ([], [])"
| "encode_loop ext clp style normalization mask_size alt_method p sdxl_options scale
     (prmpt # rest) text =
     (case get_mask prmpt mask_size of
        Inl err \<Rightarrow> Inl err
      | Inr (prompt1, msk) \<Rightarrow>
          (let (w, noscale, prompt2) = weight prompt1;
               (text', noise) = get_noise text
           in if w = 0
              then encode_loop ext clp style normalization mask_size alt_method p sdxl_options
                     scale rest text'
              else
                (case get_area prompt2 of
                   Inl err \<Rightarrow> Inl err
                 | Inr (prompt3, ar) \<Rightarrow>
                     (let (prompt4, local_sdxl_opts) = get_sdxl p;
                          (cond0, pooled0) = encode_prompt ext clp prompt4 style normalization;
                          cnd = apply_noise ext 0 cond0 noise;
                          pooled = map_option (\<lambda>t. apply_noise ext 1 t noise) pooled0;
                          s1 = empty_meta\<lparr>prompt := Some (Text prompt4)\<rparr>;
                          s2 = (if alt_method then s1\<lparr>strength := Some w\<rparr> else s1);
                          s3 = s2\<lparr>sdxl := (case local_sdxl_opts of
                                               Some l \<Rightarrow> Some l | None \<Rightarrow> sdxl_options)\<rparr>;
                          s4 = (case ar of
                                  None \<Rightarrow> s3
                                | Some (a, aw) \<Rightarrow>
                                    s3\<lparr>area := Some a, strength := Some aw,
                                       set_area_to_bounds := Some False\<rparr>);
                          s5 = (case msk of
                                  None \<Rightarrow> s4
                                | Some (m, mw) \<Rightarrow> s4\<lparr>mask := Some m, mask_strength := Some mw\<rparr>)
                      in if msk \<noteq> None \<or> ar \<noteq> None \<or> alt_method \<or> local_sdxl_opts \<noteq> None
                         then
                           (case encode_loop ext clp style normalization mask_size alt_method p
                                   sdxl_options scale rest text' of
                              Inl err \<Rightarrow> Inl err
                            | Inr (conds, res) \<Rightarrow>
                                Inr ((cnd, (case pooled of
                                              None \<Rightarrow> s5
                                            | Some po \<Rightarrow> s5\<lparr>pooled_output := Some po\<rparr>))
                                       # conds, res))
                         else if (if noscale then 1 else scale) = 0 then Inl ZeroDivisionError
                         else
                           (case encode_loop ext clp style normalization mask_size alt_method p
                                   sdxl_options scale rest text' of
                              Inl err \<Rightarrow> Inl err
                            | Inr (conds, res) \<Rightarrow>
                                Inr (conds,
                                     (cnd, pooled, w / (if noscale then 1 else scale)) # res))))))"

text \<open>
  \<open>do_encode\<close>. The segments that stand alone come first, in the order of their sub-prompts;
  the weighted sum of the others, if there is one, comes last, with the resolution options
  of the first sub-prompt and the sum of the pooled outputs that are present.
\<close>

definition do_encode :: "externals \<Rightarrow> clip \<Rightarrow> string \<Rightarrow> error + cond list" where
  "do_encode ext clp text =
     (let (style, normalization, text1) =
            get_style (available_styles ext) (available_normalizations ext) text
              ''comfy'' ''none''
      in case get_mask_size text1 of
           Inl err \<Rightarrow> Inl err
         | Inr (text2, mask_size) \<Rightarrow>
             (let alt_method = contains ''COMFYAND()'' text2;
                  text3 = remove_all ''COMFYAND()'' text2
              in case map strip (split_AND False 0 text3) of
                   [] \<Rightarrow> Inl IndexError
                 | first # rest \<Rightarrow>
                     (let (p, sdxl_options) = get_sdxl first;
                          prompts = p # rest;
                          scale = sum_list (map (\<lambda>q. \<bar>fst (weight q)\<bar>)
                                    (filter (\<lambda>q. \<not> (contains ''AREA('' q \<or> contains ''MASK('' q))
                                       prompts))
                      in case encode_loop ext clp style normalization mask_size alt_method p
                                sdxl_options scale prompts text3 of
                           Inl err \<Rightarrow> Inl err
                         | Inr (conds, res) \<Rightarrow>
                             if res = [] then Inr conds
                             else
                               (let sumconds = map (\<lambda>r. tscale (fst r) (snd (snd r))) res;
                                    pooleds = concat (map (\<lambda>r. case fst (snd r) of
                                                 None \<Rightarrow> [] | Some po \<Rightarrow> [po]) res);
                                    opts = empty_meta\<lparr>sdxl := sdxl_options\<rparr>;
                                    opts' = (if pooleds = [] then opts
                                             else opts\<lparr>pooled_output :=
                                                         Some (tsum (equalize pooleds))\<rparr>)
                                in Inr (conds @ [(tsum (equalize sumconds), opts')])))))"

section \<open>The control-point interpolator\<close>

text \<open>
  The inner loop of \<open>linear_interpolate_cond\<close> over the steps \<open>s\<close>. The loop carries
  \<open>from_pooled\<close>, \<open>to_pooled\<close> (reassigned by \<open>equalize\<close>), \<open>start_pct\<close> and the local
  \<open>new_pooled\<close>, which is a local of the whole function: \<open>None\<close> stands for "not yet
  assigned", and reading it then raises \<open>UnboundLocalError\<close>. It returns the segments of
  \<open>res\<close> and the final \<open>new_pooled\<close>.
\<close>

fun interpolate_steps ::
  "tensor \<Rightarrow> tensor \<Rightarrow> meta \<Rightarrow> rat \<Rightarrow> rat \<Rightarrow> bool \<Rightarrow> int list \<Rightarrow>
   tensor option \<Rightarrow> tensor option \<Rightarrow> tensor option \<Rightarrow> rat \<Rightarrow>
   error + (cond list \<times> tensor option)" where
  "interpolate_steps from_cond to_cond m x step ps [] fp tp np start_pct = Inr ([], np)"
| "interpolate_steps from_cond to_cond m x step ps (s # ss) fp tp np start_pct =
     (let factor = py_round2 ((of_int s + 1) * x);
          new_cond = tadd from_cond (tscale (tsub to_cond from_cond) factor);
          (fp', tp', np') =
            (case (fp, tp) of
               (Some f, Some t) \<Rightarrow>
                 (let (f', t') = equalize2 f t
                  in (Some f', Some t', Some (tadd f' (tscale (tsub t' f') factor))))
             | (Some f, None) \<Rightarrow> (fp, tp, Some f)
             | (None, _) \<Rightarrow> (fp, tp, np))
      in case np' of
           None \<Rightarrow> Inl UnboundLocalError
         | Some p \<Rightarrow>
             (let n1 = m\<lparr>pooled_output := Some p,
                        start_percent := Some (py_round2 start_pct),
                        end_percent := Some (min (py_round2 (start_pct + step)) 1)\<rparr>;
                  n2 = (if ps then n1\<lparr>prompt := Some (Linear (py_round2 (1 - factor)) factor)\<rparr>
                        else n1)
              in case interpolate_steps from_cond to_cond m x step ps ss fp' tp' np'
                        (py_round2 (start_pct + step)) of
                   Inl e \<Rightarrow> Inl e
                 | Inr (ns, np'') \<Rightarrow> Inr ((new_cond, n2) # ns, np'')))"

text \<open>\<open>res[-1][1]["end_percent"] = round(end_at, 2)\<close>, for a non-empty \<open>res\<close>.\<close>

definition close_last :: "rat \<Rightarrow> cond list \<Rightarrow> cond list" where
  "close_last end_at res =
     (if res = [] then []
      else butlast res @ [(fst (last res), (snd (last res))\<lparr>end_percent := Some (py_round2 end_at)\<rparr>)])"

text \<open>
  One pass of the loop over \<open>idx\<close>. \<open>start_at\<close> and \<open>end_at\<close> are given as the values
  they have after the first pass (the defaulting assignments are idempotent). The divisions
  by \<open>step\<close> and by \<open>total_steps + 1\<close> raise \<open>ZeroDivisionError\<close> on a zero divisor.
\<close>

definition interpolate_idx ::
  "rat \<Rightarrow> rat \<Rightarrow> rat \<Rightarrow> rat \<Rightarrow> rat \<Rightarrow> bool \<Rightarrow> cond \<Rightarrow> cond \<Rightarrow> tensor option \<Rightarrow>
   error + (cond list \<times> tensor option)" where
  "interpolate_idx from_step to_step step start_at end_at ps s e np =
     (let (from_cond, to_cond) = equalize2 (fst s) (fst e);
          from_pooled = pooled_output (snd s);
          to_pooled = pooled_output (snd e)
      in if step = 0 then Inl ZeroDivisionError
         else
           (let total_steps = round_half_even ((to_step - from_step) / step);
                num_steps = round_half_even ((end_at - from_step) / step);
                start_on = round_half_even ((start_at - from_step) / step)
            in if total_steps + 1 = 0 then Inl ZeroDivisionError
               else
                 (case interpolate_steps from_cond to_cond (snd s)
                         (1 / of_int (total_steps + 1)) step ps [start_on..num_steps - 1]
                         from_pooled to_pooled np start_at of
                    Inl err \<Rightarrow> Inl err
                  | Inr (res, np') \<Rightarrow> Inr (close_last end_at res, np'))))"

fun interpolate_all ::
  "rat \<Rightarrow> rat \<Rightarrow> rat \<Rightarrow> rat \<Rightarrow> rat \<Rightarrow> bool \<Rightarrow> (cond \<times> cond) list \<Rightarrow> tensor option \<Rightarrow>
   error + cond list" where
  "interpolate_all from_step to_step step start_at end_at ps [] np = Inr []"
| "interpolate_all from_step to_step step start_at end_at ps ((s, e) # rest) np =
     (case interpolate_idx from_step to_step step start_at end_at ps s e np of
        Inl err \<Rightarrow> Inl err
      | Inr (res, np') \<Rightarrow>
          (case interpolate_all from_step to_step step start_at end_at ps rest np' of
             Inl err \<Rightarrow> Inl err
           | Inr all_res \<Rightarrow> Inr (res @ all_res)))"

text \<open>
  \<open>linear_interpolate_cond\<close>: the lists are paired by index up to the shorter one
  (\<open>zip\<close>), \<open>start_at\<close> and \<open>end_at\<close> default to \<open>from_step\<close> and \<open>to_step\<close>, and
  \<open>prompt_start\<close> is tested for being non-empty.
\<close>

definition linear_interpolate_cond ::
  "cond list \<Rightarrow> cond list \<Rightarrow> rat \<Rightarrow> rat \<Rightarrow> rat \<Rightarrow> rat option \<Rightarrow> rat option \<Rightarrow> string \<Rightarrow>
   error + cond list" where
  "linear_interpolate_cond start end from_step to_step step start_at end_at prompt_start =
     interpolate_all from_step to_step step
       (case start_at of Some a \<Rightarrow> a | None \<Rightarrow> from_step)
       (case end_at of Some a \<Rightarrow> a | None \<Rightarrow> to_step)
       (prompt_start \<noteq> []) (zip start end) None"

text \<open>
  Three notions used to state what the interpolator emits: the blend of two tensors at a
  factor (after \<open>equalize\<close>), the \<open>end_percent\<close> values that \<open>n\<close> steps of the inner
  loop write when it starts at \<open>start_pct\<close>, and the ten values \<open>0.1, 0.2, ..., 1.0\<close>.
\<close>

definition blend :: "tensor \<Rightarrow> tensor \<Rightarrow> rat \<Rightarrow> tensor" where
  "blend a b factor = (let (f, t) = equalize2 a b in tadd f (tscale (tsub t f) factor))"

fun percent_walk :: "rat \<Rightarrow> rat \<Rightarrow> nat \<Rightarrow> rat option list" where
  "percent_walk start_pct step 0 = []"
| "percent_walk start_pct step (Suc n) =
     Some (min (py_round2 (start_pct + step)) 1)
       # percent_walk (py_round2 (start_pct + step)) step n"

definition tenths :: "rat option list" where
  "tenths = [Some (1 / 10), Some (1 / 5), Some (3 / 10), Some (2 / 5), Some (1 / 2),
     Some (3 / 5), Some (7 / 10), Some (4 / 5), Some (9 / 10), Some 1]"

text \<open>
  Tensor entries that are not finite. A float is a finite value, an infinity or NaN; on
  infinities and NaN the arithmetic is that of IEEE 754: \<open>inf - inf\<close> and \<open>inf * 0\<close> are NaN,
  and NaN absorbs. On finite values it is the exact arithmetic used above. The factor of a
  blend is a rounded quotient and is always finite. \<open>xblend\<close> is the expression
  \<open>from_cond + (to_cond - from_cond) * factor\<close> of the inner loop on such tensors, and
  \<open>xblend_steps\<close> lists the \<open>new_cond\<close> that the inner loop computes over the steps \<open>s\<close>.
\<close>

datatype xfloat = Finite rat | PosInf | NegInf | NaN

fun xneg :: "xfloat \<Rightarrow> xfloat" where
  "xneg (Finite a) = Finite (- a)"
| "xneg PosInf = NegInf"
| "xneg NegInf = PosInf"
| "xneg NaN = NaN"

fun xadd :: "xfloat \<Rightarrow> xfloat \<Rightarrow> xfloat" where
  "xadd (Finite a) (Finite b) = Finite (a + b)"
| "xadd NaN b = NaN"
| "xadd a NaN = NaN"
| "xadd PosInf NegInf = NaN"
| "xadd NegInf PosInf = NaN"
| "xadd PosInf b = PosInf"
| "xadd a PosInf = PosInf"
| "xadd NegInf b = NegInf"
| "xadd a NegInf = NegInf"

definition xsub :: "xfloat \<Rightarrow> xfloat \<Rightarrow> xfloat" where
  "xsub a b = xadd a (xneg b)"

fun xmul :: "xfloat \<Rightarrow> rat \<Rightarrow> xfloat" where
  "xmul (Finite a) k = Finite (a * k)"
| "xmul NaN k = NaN"
| "xmul PosInf k = (if k = 0 then NaN else if 0 < k then PosInf else NegInf)"
| "xmul NegInf k = (if k = 0 then NaN else if 0 < k then NegInf else PosInf)"

definition xblend :: "xfloat list \<Rightarrow> xfloat list \<Rightarrow> rat \<Rightarrow> xfloat list" where
  "xblend from_cond to_cond factor =
     map2 xadd from_cond (map (\<lambda>v. xmul v factor) (map2 xsub to_cond from_cond))"

definition xblend_steps :: "xfloat list \<Rightarrow> xfloat list \<Rightarrow> rat \<Rightarrow> int list \<Rightarrow> xfloat list list" where
  "xblend_steps from_cond to_cond x steps =
     map (\<lambda>s. xblend from_cond to_cond (py_round2 ((of_int s + 1) * x))) steps"

text \<open>
  The loop of \<open>linear_interpolator\<close> over \<open>control_points[1:]\<close>, carrying \<open>t_start\<close> and
  \<open>start\<close>; \<open>conds\<close> is what the remaining passes add. \<open>continue\<close> goes on with the
  next control point, \<open>break\<close> ends the loop, and an exception of
  \<open>linear_interpolate_cond\<close> ends the call.
\<close>

fun interpolator_loop ::
  "rat \<Rightarrow> rat \<Rightarrow> rat \<Rightarrow> rat \<Rightarrow> rat \<Rightarrow> rat \<Rightarrow> cond list \<Rightarrow> (rat \<times> cond list) list \<Rightarrow>
   error + cond list" where
  "interpolator_loop o_start o_end step start_pct end_pct t_start start [] = Inr []"
| "interpolator_loop o_start o_end step start_pct end_pct t_start start ((t_end, end) # rest) =
     (if t_start < start_pct
      then interpolator_loop o_start o_end step start_pct end_pct t_end end rest
      else if end_pct \<le> t_start then Inr []
      else
        (case linear_interpolate_cond start end o_start o_end step
                (Some t_start) (Some end_pct) ''N/A'' of
           Inl err \<Rightarrow> Inl err
         | Inr cs \<Rightarrow>
             if cs \<noteq> []
             then (case interpolator_loop o_start o_end step start_pct end_pct t_end end rest of
                     Inl err \<Rightarrow> Inl err
                   | Inr conds \<Rightarrow> Inr (cs @ conds))
             else Inr []))"

text \<open>\<open>control_points[0]\<close> raises \<open>IndexError\<close> on an empty list.\<close>

definition linear_interpolator ::
  "(rat \<times> cond list) list \<Rightarrow> rat \<Rightarrow> rat \<Rightarrow> rat \<Rightarrow> error + cond list" where
  "linear_interpolator control_points step start_pct end_pct =
     (case control_points of
        [] \<Rightarrow> Inl IndexError
      | (o_start, start) # rest \<Rightarrow>
          interpolator_loop o_start (fst (last control_points)) step start_pct end_pct
            o_start start rest)"

text \<open>
  The interpolator in the words of the specification. The consecutive pairs of control points
  are walked in order for as long as each pair is either skipped (it starts below
  \<open>start_pct\<close>) or is in range (it starts below \<open>end_pct\<close>) and yields at least one segment;
  the segments of the walked pairs that are not skipped are concatenated. The walk ends at the
  first pair that is neither: a pair starting at or after \<open>end_pct\<close>, a pair yielding no
  segment, or a pair on which \<open>linear_interpolate_cond\<close> raises, which ends the call.
\<close>

definition pair_segments ::
  "rat \<Rightarrow> rat \<Rightarrow> rat \<Rightarrow> rat \<Rightarrow> (rat \<times> cond list) \<times> (rat \<times> cond list) \<Rightarrow> error + cond list" where
  "pair_segments o_start o_end step end_pct p =
     linear_interpolate_cond (snd (fst p)) (snd (snd p)) o_start o_end step
       (Some (fst (fst p))) (Some end_pct) ''N/A''"

definition walks_on ::
  "rat \<Rightarrow> rat \<Rightarrow> rat \<Rightarrow> rat \<Rightarrow> rat \<Rightarrow> (rat \<times> cond list) \<times> (rat \<times> cond list) \<Rightarrow> bool" where
  "walks_on o_start o_end step start_pct end_pct p =
     (if fst (fst p) < start_pct then True
      else if end_pct \<le> fst (fst p) then False
      else (case pair_segments o_start o_end step end_pct p of
              Inl err \<Rightarrow> False
            | Inr cs \<Rightarrow> cs \<noteq> []))"

definition walked_segments ::
  "rat \<Rightarrow> rat \<Rightarrow> rat \<Rightarrow> rat \<Rightarrow> rat \<Rightarrow> (rat \<times> cond list) \<times> (rat \<times> cond list) \<Rightarrow> cond list" where
  "walked_segments o_start o_end step start_pct end_pct p =
     (if fst (fst p) < start_pct then []
      else (case pair_segments o_start o_end step end_pct p of
              Inl err \<Rightarrow> []
            | Inr cs \<Rightarrow> cs))"

definition walk_pairs ::
  "rat \<Rightarrow> rat \<Rightarrow> rat \<Rightarrow> rat \<Rightarrow> rat \<Rightarrow> ((rat \<times> cond list) \<times> (rat \<times> cond list)) list \<Rightarrow>
   error + cond list" where
  "walk_pairs o_start o_end step start_pct end_pct pairs =
     (let walked = takeWhile (walks_on o_start o_end step start_pct end_pct) pairs;
          conds = concat (map (walked_segments o_start o_end step start_pct end_pct) walked)
      in case dropWhile (walks_on o_start o_end step start_pct end_pct) pairs of
           [] \<Rightarrow> Inr conds
         | p # later \<Rightarrow>
             if end_pct \<le> fst (fst p) then Inr conds
             else (case pair_segments o_start o_end step end_pct p of
                     Inl err \<Rightarrow> Inl err
                   | Inr cs \<Rightarrow> Inr conds))"

definition linear_interpolator_spec ::
  "(rat \<times> cond list) list \<Rightarrow> rat \<Rightarrow> rat \<Rightarrow> rat \<Rightarrow> error + cond list" where
  "linear_interpolator_spec control_points step start_pct end_pct =
     (if control_points = [] then Inl IndexError
      else walk_pairs (fst (hd control_points)) (fst (last control_points)) step
             start_pct end_pct (zip control_points (tl control_points)))"

section \<open>The schedule orchestrator\<close>

text \<open>
  A segment configuration holds the prompt text and the LoRA dictionary, here the list of its
  items \<open>(name, weight_clip)\<close> with distinct names; two dictionaries are equal when they
  have the same items. A schedule is the list of its entries \<open>(end_pct, c)\<close> together with
  its interpolation specs \<open>(control_points, step)\<close>.
\<close>

record segment_config =
  seg_prompt :: string
  seg_loras :: "(string \<times> rat) list"

record prompt_schedule =
  entries :: "(rat \<times> segment_config) list"
  interpolations :: "(rat list \<times> rat) list"

text \<open>
  Modelled from the spec: the method \<open>at_step\<close> of the schedule belongs to the parser, which
  is not among the sources. A segment is active from the end of the one before it up to and
  including its own \<open>end_pct\<close>; past the last entry the last segment stays active.
\<close>

definition at_step :: "prompt_schedule \<Rightarrow> rat \<Rightarrow> error + (rat \<times> segment_config)" where
  "at_step schedule s =
     (case filter (\<lambda>e. s \<le> fst e) (entries schedule) of
        e # later \<Rightarrow> Inr e
      | [] \<Rightarrow> (if entries schedule = [] then Inl IndexError else Inr (last (entries schedule))))"

text \<open>
  The state that the closure \<open>encode\<close> shares with \<open>control_to_clip_common\<close>: the handle
  \<open>clip\<close>, \<open>current_loras\<close> and the cache. The field \<open>calls\<close> is not in the program: it
  records, in order, the segment configurations on which \<open>do_encode\<close> was invoked.
\<close>

record encode_state =
  cur_clip :: clip
  current_loras :: "(string \<times> rat) list"
  cond_cache :: "string \<rightharpoonup> cond list"
  calls :: "segment_config list"

definition load_clip_lora :: "externals \<Rightarrow> clip \<Rightarrow> (string \<times> rat) list \<Rightarrow> clip" where
  "load_clip_lora ext clp loraspec =
     clp @ filter (\<lambda>l. fst l \<in> set (loaded_loras ext) \<and> snd l \<noteq> 0) loraspec"

text \<open>\<open>c_str\<close>: the prompt followed by each LoRA name and its weight, in the order of the names.\<close>

definition c_str :: "externals \<Rightarrow> segment_config \<Rightarrow> string" where
  "c_str ext c =
     seg_prompt c @ concat (map (\<lambda>l. fst l @ str_of_weight ext (snd l)) (sort_key fst (seg_loras c)))"

text \<open>
  \<open>encode\<close>; \<open>orig_clip\<close> is the clone of the handle taken at the start. It returns the
  segments and the new state.
\<close>

definition encode ::
  "externals \<Rightarrow> clip \<Rightarrow> encode_state \<Rightarrow> segment_config \<Rightarrow> error + (cond list \<times> encode_state)" where
  "encode ext orig_clip st c =
     (case cond_cache st (c_str ext c) of
        Some cnd \<Rightarrow> Inr (cnd, st)
      | None \<Rightarrow>
          (let st1 = (if set (seg_loras c) \<noteq> set (current_loras st)
                      then st\<lparr>cur_clip := load_clip_lora ext orig_clip (seg_loras c),
                              current_loras := seg_loras c\<rparr>
                      else st)
           in case do_encode ext (cur_clip st1) (seg_prompt c) of
                Inl err \<Rightarrow> Inl err
              | Inr cnd \<Rightarrow>
                  Inr (cnd, st1\<lparr>cond_cache := (cond_cache st1)(c_str ext c \<mapsto> cnd),
                                calls := calls st1 @ [c]\<rparr>)))"

text \<open>
  The comprehension of \<open>get_control_points\<close> that encodes the segment active at each step;
  the steps of the set \<open>new_steps\<close> are visited in ascending order.
\<close>

fun encode_steps ::
  "externals \<Rightarrow> clip \<Rightarrow> prompt_schedule \<Rightarrow> encode_state \<Rightarrow> rat list \<Rightarrow>
   error + ((rat \<times> cond list) list \<times> encode_state)" where
  "encode_steps ext orig_clip schedule st [] = Inr ([], st)"
| "encode_steps ext orig_clip schedule st (s # ss) =
     (case at_step schedule s of
        Inl err \<Rightarrow> Inl err
      | Inr e \<Rightarrow>
          (case encode ext orig_clip st (snd e) of
             Inl err \<Rightarrow> Inl err
           | Inr (cnd, st1) \<Rightarrow>
               (case encode_steps ext orig_clip schedule st1 ss of
                  Inl err \<Rightarrow> Inl err
                | Inr (cps, st2) \<Rightarrow> Inr ((s, cnd) # cps, st2))))"

definition get_control_points ::
  "externals \<Rightarrow> clip \<Rightarrow> prompt_schedule \<Rightarrow> rat list \<Rightarrow> encode_state \<Rightarrow>
   error + ((rat \<times> cond list) list \<times> encode_state)" where
  "get_control_points ext orig_clip schedule steps st =
     (if length steps \<le> 1 then Inl AssertionError
      else encode_steps ext orig_clip schedule st
             (sort (remdups (steps @ filter (\<lambda>s. hd steps \<le> s \<and> s \<le> last steps)
                                       (map fst (entries schedule))))))"

text \<open>
  The loop over the interpolation specs that overlap the current entry. It carries the
  state of \<open>encode\<close> and \<open>new_start_pct\<close> and returns the segments it appends.
\<close>

fun interpolate_specs ::
  "externals \<Rightarrow> clip \<Rightarrow> prompt_schedule \<Rightarrow> rat \<Rightarrow> rat \<Rightarrow> rat \<Rightarrow> (rat list \<times> rat) list \<Rightarrow>
   encode_state \<Rightarrow> rat \<Rightarrow> error + (cond list \<times> encode_state \<times> rat)" where
  "interpolate_specs ext orig_clip schedule min_step start_pct end_pct [] st new_start_pct =
     Inr ([], st, new_start_pct)"
| "interpolate_specs ext orig_clip schedule min_step start_pct end_pct (i # rest) st new_start_pct =
     (let interpolation_end_pct = min (last (fst i)) end_pct;
          interpolation_start_pct = max (hd (fst i)) start_pct
      in case get_control_points ext orig_clip schedule (fst i) st of
           Inl err \<Rightarrow> Inl err
         | Inr (control_points, st1) \<Rightarrow>
             (case linear_interpolator control_points min_step interpolation_start_pct
                     interpolation_end_pct of
                Inl err \<Rightarrow> Inl err
              | Inr cs \<Rightarrow>
                  (case interpolate_specs ext orig_clip schedule min_step start_pct end_pct rest
                          st1 (max new_start_pct interpolation_end_pct) of
                     Inl err \<Rightarrow> Inl err
                   | Inr (conds, st2, nsp) \<Rightarrow> Inr (cs @ conds, st2, nsp))))"

text \<open>The copies of the encoded segments, stamped with the range and the prompt.\<close>

definition stamp :: "rat \<Rightarrow> rat \<Rightarrow> string \<Rightarrow> cond \<Rightarrow> cond" where
  "stamp start_pct end_pct text n =
     (fst n, (snd n)\<lparr>start_percent := Some (py_round2 start_pct),
                     end_percent := Some (py_round2 end_pct),
                     prompt := Some (Text text)\<rparr>)"

text \<open>
  The main loop over the entries of the schedule. The control points of an interpolation
  spec are indexed at 0 and -1 when the specs are filtered, which raises \<open>IndexError\<close> on
  a spec without control points.
\<close>

fun schedule_loop ::
  "externals \<Rightarrow> clip \<Rightarrow> prompt_schedule \<Rightarrow> (rat \<times> segment_config) list \<Rightarrow> rat \<Rightarrow>
   encode_state \<Rightarrow> error + (cond list \<times> encode_state)" where
  "schedule_loop ext orig_clip schedule [] start_pct st = Inr ([], st)"
| "schedule_loop ext orig_clip schedule ((end_pct, c) # rest) start_pct st =
     (if list_ex (\<lambda>i. fst i = []) (interpolations schedule) then Inl IndexError
      else
        (let specs = filter (\<lambda>i. (hd (fst i) \<le> start_pct \<and> start_pct < last (fst i))
                                 \<or> (hd (fst i) < end_pct \<and> start_pct < last (fst i)))
                       (interpolations schedule)
         in case (if specs = [] then Inr ([], st, start_pct)
                  else interpolate_specs ext orig_clip schedule (Min (set (map snd specs)))
                         start_pct end_pct specs st start_pct) of
              Inl err \<Rightarrow> Inl err
            | Inr (conds1, st1, start_pct1) \<Rightarrow>
                (case (if start_pct1 < end_pct
                       then (case encode ext orig_clip st1 c of
                               Inl err \<Rightarrow> Inl err
                             | Inr (cnd, st2) \<Rightarrow>
                                 Inr (map (stamp start_pct1 end_pct (seg_prompt c)) cnd, st2))
                       else Inr ([], st1)) of
                   Inl err \<Rightarrow> Inl err
                 | Inr (conds2, st2) \<Rightarrow>
                     (case schedule_loop ext orig_clip schedule rest end_pct st2 of
                        Inl err \<Rightarrow> Inl err
                      | Inr (conds3, st3) \<Rightarrow> Inr (conds1 @ conds2 @ conds3, st3)))))"

text \<open>
  \<open>control_to_clip_common\<close> with the final state of \<open>encode\<close>, whose cache is the
  dictionary that the caller passed, if any, and sees updated; and the list it returns.
\<close>

definition run_schedule ::
  "externals \<Rightarrow> clip \<Rightarrow> prompt_schedule \<Rightarrow> (string \<rightharpoonup> cond list) option \<Rightarrow>
   error + (cond list \<times> encode_state)" where
  "run_schedule ext clp schedules cache =
     schedule_loop ext clp schedules (entries schedules) 0
       \<lparr>cur_clip = clp, current_loras = [],
        cond_cache = (case cache of Some m \<Rightarrow> m | None \<Rightarrow> Map.empty), calls = []\<rparr>"

definition control_to_clip_common ::
  "externals \<Rightarrow> clip \<Rightarrow> prompt_schedule \<Rightarrow> (string \<rightharpoonup> cond list) option \<Rightarrow> error + cond list" where
  "control_to_clip_common ext clp schedules cache =
     (case run_schedule ext clp schedules cache of
        Inl err \<Rightarrow> Inl err
      | Inr (conds, st) \<Rightarrow> Inr conds)"

text \<open>
  An instance of the parameters for concrete runs: a toy token encoder that returns the
  character codes of the text as tensor and the code of its first character as pooled output,
  whatever the handle; noise of ones; the styles and normalizations of the plain installation.
\<close>

definition example_externals :: externals where
  "example_externals =
     \<lparr>encode_prompt = (\<lambda>clp text style normalization.
          (map (\<lambda>ch. of_int (of_char ch)) text, Some (map (\<lambda>ch. of_int (of_char ch)) (take 1 text)))),
      randn = (\<lambda>gen k n. replicate n 1),
      available_styles = [''comfy'', ''perp''],
      available_normalizations = [''none''],
      str_of_weight = (\<lambda>w. ''#''),
      loaded_loras = []\<rparr>"

text \<open>
  Three notions used to state what the orchestrator does. \<open>encoded_once\<close>: the invocations
  of \<open>do_encode\<close> recorded in a state have pairwise distinct cache keys, none of them a key
  of the cache \<open>cache0\<close> the run started with, and the cache holds all these keys.
  \<open>ranges\<close>: the \<open>(start_percent, end_percent)\<close> entries of a list of segments.
  \<open>chained\<close>: each range of a list is followed by the same range or by one that starts
  where it ends.
\<close>

definition encoded_once :: "externals \<Rightarrow> (string \<rightharpoonup> cond list) \<Rightarrow> encode_state \<Rightarrow> bool" where
  "encoded_once ext cache0 st =
     (distinct (map (c_str ext) (calls st))
      \<and> c_str ext ` set (calls st) \<inter> dom cache0 = {}
      \<and> c_str ext ` set (calls st) \<union> dom cache0 \<subseteq> dom (cond_cache st))"





section \<open>Properties of the interpolator\<close>

lemma interpolate_steps_unbound:
  "interpolate_steps from_cond to_cond m x step ps (s # ss) None tp None start_pct
     = Inl UnboundLocalError"
  by (simp add: Let_def split: option.splits)

lemma interpolate_idx_unbound:
  assumes "pooled_output (snd s) = None" and "step \<noteq> 0"
    and "round_half_even ((to_step - from_step) / step) + 1 \<noteq> 0"
    and "round_half_even ((start_at - from_step) / step)
           < round_half_even ((end_at - from_step) / step)"
  shows "interpolate_idx from_step to_step step start_at end_at ps s e None
           = Inl UnboundLocalError"
proof -
  let ?a = "round_half_even ((start_at - from_step) / step)"
  let ?b = "round_half_even ((end_at - from_step) / step)"
  have "[?a..?b - 1] = ?a # [?a + 1..?b - 1]"
    using assms(4) by (simp add: upto_rec1)
  then show ?thesis
    using assms(1-3)
    by (simp add: interpolate_idx_def Let_def interpolate_steps_unbound split: prod.splits)
qed

text \<open>
  C10. When the first paired entries of \<open>start\<close> and \<open>end\<close> both lack a
  \<open>pooled_output\<close> and the inner loop is reached and runs at least once (the two divisors
  are non-zero and \<open>start_on < num_steps\<close>), \<open>linear_interpolate_cond\<close> does not return:
  it raises \<open>UnboundLocalError\<close> on reading \<open>new_pooled\<close>.
\<close>

theorem lic_unbound_local:
  assumes "start \<noteq> []" and "end \<noteq> []"
    and "pooled_output (snd (hd start)) = None" and "pooled_output (snd (hd end)) = None"
    and "step \<noteq> 0" and "round_half_even ((to_step - from_step) / step) + 1 \<noteq> 0"
    and "round_half_even
           (((case start_at of Some a \<Rightarrow> a | None \<Rightarrow> from_step) - from_step) / step)
         < round_half_even
             (((case end_at of Some a \<Rightarrow> a | None \<Rightarrow> to_step) - from_step) / step)"
  shows "linear_interpolate_cond start end from_step to_step step start_at end_at prompt_start
           = Inl UnboundLocalError"
proof -
  obtain s ss e es where "start = s # ss" "end = e # es"
    using assms(1,2) by (cases start; cases "end") auto
  then show ?thesis
    using assms(3-7)
    by (simp add: linear_interpolate_cond_def interpolate_idx_unbound)
qed

theorem lic_unbound_local_witness:
  "linear_interpolate_cond [([1, 2], empty_meta)] [([3, 5], empty_meta)] 0 1 (1 / 10)
     None None ''N/A'' = Inl UnboundLocalError"
proof -
  have a: "[([1, 2], empty_meta)] \<noteq> ([] :: cond list)"
    and b: "[([3, 5], empty_meta)] \<noteq> ([] :: cond list)"
    by simp_all
  have c: "pooled_output (snd (hd [([1::rat, 2], empty_meta)])) = None"
    "pooled_output (snd (hd [([3::rat, 5], empty_meta)])) = None"
    by (simp_all add: empty_meta_def)
  have d: "(1 / 10 :: rat) \<noteq> 0" by simp
  have e: "round_half_even ((1 - 0) / (1 / 10)) + 1 \<noteq> 0" by code_simp
  have f: "round_half_even (((case None of Some a \<Rightarrow> a | None \<Rightarrow> 0) - 0) / (1 / 10))
           < round_half_even (((case None of Some a \<Rightarrow> a | None \<Rightarrow> 1) - 0) / (1 / 10))"
    by code_simp
  show ?thesis
    by (rule lic_unbound_local [OF a b c d e f])
qed



lemma close_last_fst: "map fst (close_last e res) = map fst res"
  by (cases res rule: rev_cases) (simp_all add: close_last_def)









text \<open>
  The claim as stated fails on a tensor with an infinite entry: the difference of the entry
  with itself is NaN, and so is the entry of every blend. For the tensor \<open>[1, inf]\<close> the ten
  steps of the inner loop (\<open>x = 1 / 11\<close>) compute ten times \<open>[1, nan]\<close>, which is not the
  tensor.
\<close>

theorem lic_infinite_counterexample:
  "xblend_steps [Finite 1, PosInf] [Finite 1, PosInf] (1 / 11) [0..9]
     = replicate 10 [Finite 1, NaN]
   \<and> xblend [PosInf] [PosInf] (py_round2 (1 / 11)) = [NaN]
   \<and> [Finite 1, NaN] \<noteq> [Finite 1, PosInf]"
  by code_simp
lemma interpolate_steps_bound:
  assumes "fp \<noteq> None \<or> np \<noteq> None"
  shows "\<exists>res np'. interpolate_steps fc tc m x step ps ss fp tp np sp = Inr (res, np')
     \<and> (ss \<noteq> [] \<or> np \<noteq> None \<longrightarrow> np' \<noteq> None)
     \<and> map fst res = map (\<lambda>s. tadd fc (tscale (tsub tc fc) (py_round2 ((of_int s + 1) * x)))) ss
     \<and> map (\<lambda>c. end_percent (snd c)) res = percent_walk sp step (length ss)"
  using assms
proof (induction ss arbitrary: fp tp np sp)
  case Nil
  then show ?case by simp
next
  case (Cons s ss)
  let ?factor = "py_round2 ((of_int s + 1) * x)"
  obtain fp' tp' p where st:
    "(case (fp, tp) of
        (Some f, Some t) \<Rightarrow>
          (let (f', t') = equalize2 f t
           in (Some f', Some t', Some (tadd f' (tscale (tsub t' f') ?factor))))
      | (Some f, None) \<Rightarrow> (fp, tp, Some f)
      | (None, _) \<Rightarrow> (fp, tp, np)) = (fp', tp', Some p)"
    using Cons.prems by (cases fp; cases tp; cases np) (auto simp: Let_def equalize2_def)
  from Cons.IH [of fp' "Some p" tp' "py_round2 (sp + step)"]
  obtain res np' where r:
    "interpolate_steps fc tc m x step ps ss fp' tp' (Some p) (py_round2 (sp + step)) = Inr (res, np')"
    "np' \<noteq> None"
    "map fst res = map (\<lambda>s. tadd fc (tscale (tsub tc fc) (py_round2 ((of_int s + 1) * x)))) ss"
    "map (\<lambda>c. end_percent (snd c)) res = percent_walk (py_round2 (sp + step)) step (length ss)"
    by auto
  show ?case
    using st r by (simp add: Let_def)
qed


lemma close_last_end:
  "map (\<lambda>c. end_percent (snd c)) (close_last e res) =
     (if res = [] then [] else butlast (map (\<lambda>c. end_percent (snd c)) res) @ [Some (py_round2 e)])"
  by (cases res rule: rev_cases) (simp_all add: close_last_def)

lemma close_last_last:
  "close_last e res \<noteq> [] \<Longrightarrow> end_percent (snd (last (close_last e res))) = Some (py_round2 e)"
  by (cases res rule: rev_cases) (simp_all add: close_last_def)

lemma round_half_even_consts: "round_half_even 10 = 10" "round_half_even 0 = 0"
  by code_simp+

lemma percent_walk_tenths:
  "butlast (percent_walk 0 (1 / 10) 10) @ [Some (py_round2 1)] =
     [Some (1 / 10), Some (1 / 5), Some (3 / 10), Some (2 / 5), Some (1 / 2), Some (3 / 5),
      Some (7 / 10), Some (4 / 5), Some (9 / 10), Some 1]"
  by code_simp

lemma interpolate_idx_tenths:
  assumes "pooled_output (snd s) \<noteq> None \<or> np \<noteq> None"
  shows "\<exists>res np'. interpolate_idx 0 1 (1 / 10) 0 1 ps s e np = Inr (res, np') \<and> np' \<noteq> None
     \<and> map fst res = map (\<lambda>k. blend (fst s) (fst e) (py_round2 ((of_int k + 1) * (1 / 11)))) [0..9]
     \<and> map (\<lambda>c. end_percent (snd c)) res = tenths"
proof -
  obtain fc tc where eq: "equalize2 (fst s) (fst e) = (fc, tc)"
    by (cases "equalize2 (fst s) (fst e)")
  have len: "length [0..(9::int)] = 10" by simp
  from interpolate_steps_bound [OF assms, of fc tc "snd s" "1 / 11" "1 / 10" ps "[0..9]" "pooled_output (snd e)" 0]
  obtain res np' where r:
    "interpolate_steps fc tc (snd s) (1 / 11) (1 / 10) ps [0..9] (pooled_output (snd s))
       (pooled_output (snd e)) np 0 = Inr (res, np')"
    "np' \<noteq> None"
    "map fst res = map (\<lambda>s. tadd fc (tscale (tsub tc fc) (py_round2 ((of_int s + 1) * (1 / 11))))) [0..9]"
    "map (\<lambda>c. end_percent (snd c)) res = percent_walk 0 (1 / 10) 10"
    unfolding len by (auto simp: upto_rec1)
  have "length res = 10"
    using r(3) len by (metis length_map)
  then have ne: "res \<noteq> []"
    by auto
  have b: "\<And>k. blend (fst s) (fst e) k = tadd fc (tscale (tsub tc fc) k)"
    by (simp add: blend_def eq)
  have "interpolate_idx 0 1 (1 / 10) 0 1 ps s e np = Inr (close_last 1 res, np')"
    using r(1) by (simp add: interpolate_idx_def eq round_half_even_consts)
  moreover have "map fst (close_last 1 res) = map (\<lambda>k. blend (fst s) (fst e) (py_round2 ((of_int k + 1) * (1 / 11)))) [0..9]"
    using r(3) by (simp only: close_last_fst b)
  moreover have "map (\<lambda>c. end_percent (snd c)) (close_last 1 res) = tenths"
    using ne r(4) percent_walk_tenths by (simp only: close_last_end tenths_def if_False)
  ultimately show ?thesis
    using r(2) by blast
qed

lemma interpolate_all_tenths:
  assumes "pairs \<noteq> [] \<longrightarrow> pooled_output (snd (fst (hd pairs))) \<noteq> None \<or> np \<noteq> None"
  shows "\<exists>r. interpolate_all 0 1 (1 / 10) 0 1 ps pairs np = Inr r
     \<and> map fst r = concat (map (\<lambda>p. map (\<lambda>k. blend (fst (fst p)) (fst (snd p))
                        (py_round2 ((of_int k + 1) * (1 / 11)))) [0..9]) pairs)
     \<and> map (\<lambda>c. end_percent (snd c)) r = concat (replicate (length pairs) tenths)"
  using assms
proof (induction pairs arbitrary: np)
  case Nil
  then show ?case by simp
next
  case (Cons p pairs)
  obtain s e where p: "p = (s, e)" by (cases p)
  have "pooled_output (snd s) \<noteq> None \<or> np \<noteq> None"
    using Cons.prems p by simp
  from interpolate_idx_tenths [OF this, of ps e]
  obtain res np' where r:
    "interpolate_idx 0 1 (1 / 10) 0 1 ps s e np = Inr (res, np')" "np' \<noteq> None"
    "map fst res = map (\<lambda>k. blend (fst s) (fst e) (py_round2 ((of_int k + 1) * (1 / 11)))) [0..9]"
    "map (\<lambda>c. end_percent (snd c)) res = tenths"
    by blast
  from Cons.IH [of np'] r(2)
  obtain r' where r':
    "interpolate_all 0 1 (1 / 10) 0 1 ps pairs np' = Inr r'"
    "map fst r' = concat (map (\<lambda>p. map (\<lambda>k. blend (fst (fst p)) (fst (snd p))
                        (py_round2 ((of_int k + 1) * (1 / 11)))) [0..9]) pairs)"
    "map (\<lambda>c. end_percent (snd c)) r' = concat (replicate (length pairs) tenths)"
    by auto
  show ?case
    using r r' p by simp
qed

lemma interpolate_idx_last:
  assumes "interpolate_idx from_step to_step step start_at end_at ps s e np = Inr (res, np')"
    and "res \<noteq> []"
  shows "end_percent (snd (last res)) = Some (py_round2 end_at)"
  using assms
  by (auto simp: interpolate_idx_def Let_def close_last_last
           split: prod.splits if_splits sum.splits)

lemma interpolate_all_last:
  assumes "interpolate_all from_step to_step step start_at end_at ps pairs np = Inr r"
    and "r \<noteq> []"
  shows "end_percent (snd (last r)) = Some (py_round2 end_at)"
  using assms
proof (induction pairs arbitrary: np r)
  case Nil
  then show ?case by simp
next
  case (Cons p pairs)
  obtain s e where p: "p = (s, e)" by (cases p)
  from Cons.prems(1) p obtain res np' r' where
    a: "interpolate_idx from_step to_step step start_at end_at ps s e np = Inr (res, np')"
    and b: "interpolate_all from_step to_step step start_at end_at ps pairs np' = Inr r'"
    and c: "r = res @ r'"
    by (auto split: sum.splits)
  show ?case
  proof (cases "r' = []")
    case True
    then show ?thesis
      using interpolate_idx_last [OF a] c Cons.prems(2) by simp
  next
    case False
    then show ?thesis
      using Cons.IH [OF b] c by simp
  qed
qed


text \<open>
  C4, as amended. (1) With \<open>from_step = 0\<close>, \<open>to_step = 1\<close>, \<open>step = 0.1\<close> and the default
  \<open>start_at\<close>, \<open>end_at\<close>, on non-empty lists whose first \<open>start\<close> entry carries a pooled
  output, \<open>linear_interpolate_cond\<close> returns ten segments per paired index; their
  \<open>end_percent\<close> values are \<open>0.1, 0.2, ..., 1.0\<close> and the tensor of step \<open>s\<close> is the blend
  at factor \<open>round((s + 1) * 1 / (total_steps + 1), 2)\<close> with \<open>total_steps = 10\<close>.
  (2) Whenever a call returns at least one segment, the last segment's \<open>end_percent\<close> is
  \<open>round(end_at, 2)\<close>.
\<close>

theorem lic_ten_steps:
  assumes "start \<noteq> []" and "end \<noteq> []" and "pooled_output (snd (hd start)) \<noteq> None"
    and "linear_interpolate_cond start' end' from_step to_step step start_at end_at ps' = Inr r'"
    and "r' \<noteq> []"
  shows "(\<exists>r. linear_interpolate_cond start end 0 1 (1 / 10) None None ps = Inr r
            \<and> length r = 10 * min (length start) (length end)
            \<and> map (\<lambda>c. end_percent (snd c)) r
                  = concat (replicate (min (length start) (length end)) tenths)
            \<and> map fst r
                  = concat (map (\<lambda>p. map (\<lambda>s. blend (fst (fst p)) (fst (snd p))
                                                (py_round2 ((of_int s + 1) * (1 / (10 + 1))))) [0..9])
                             (zip start end)))
         \<and> end_percent (snd (last r'))
               = Some (py_round2 (case end_at of Some a \<Rightarrow> a | None \<Rightarrow> to_step))"
proof -
  have "zip start end \<noteq> [] \<longrightarrow>
          pooled_output (snd (fst (hd (zip start end)))) \<noteq> None \<or> (None :: tensor option) \<noteq> None"
    using assms(1-3) by (cases start; cases "end") auto
  from interpolate_all_tenths [OF this, of "ps \<noteq> []"]
  obtain r where r:
    "interpolate_all 0 1 (1 / 10) 0 1 (ps \<noteq> []) (zip start end) None = Inr r"
    "map fst r = concat (map (\<lambda>p. map (\<lambda>k. blend (fst (fst p)) (fst (snd p))
                        (py_round2 ((of_int k + 1) * (1 / 11)))) [0..9]) (zip start end))"
    "map (\<lambda>c. end_percent (snd c)) r = concat (replicate (length (zip start end)) tenths)"
    by blast
  have "length (map (\<lambda>c. end_percent (snd c)) r) = 10 * min (length start) (length end)"
    unfolding r(3) by (simp add: length_concat tenths_def sum_list_replicate)
  then have len: "length r = 10 * min (length start) (length end)"
    by simp
  have one: "\<exists>r. linear_interpolate_cond start end 0 1 (1 / 10) None None ps = Inr r
            \<and> length r = 10 * min (length start) (length end)
            \<and> map (\<lambda>c. end_percent (snd c)) r
                  = concat (replicate (min (length start) (length end)) tenths)
            \<and> map fst r
                  = concat (map (\<lambda>p. map (\<lambda>s. blend (fst (fst p)) (fst (snd p))
                                                (py_round2 ((of_int s + 1) * (1 / (10 + 1))))) [0..9])
                             (zip start end))"
    using r len by (simp add: linear_interpolate_cond_def)
  have two: "end_percent (snd (last r'))
               = Some (py_round2 (case end_at of Some a \<Rightarrow> a | None \<Rightarrow> to_step))"
    using assms(4,5) interpolate_all_last unfolding linear_interpolate_cond_def by blast
  from one two show ?thesis by blast
qed

theorem lic_ten_steps_witness:
  "(\<exists>r. linear_interpolate_cond [([1], empty_meta\<lparr>pooled_output := Some [5]\<rparr>)]
           [([2], empty_meta)] 0 1 (1 / 10) None None ''N/A'' = Inr r
         \<and> length r = 10
         \<and> map (\<lambda>c. end_percent (snd c)) r = tenths)
   \<and> end_percent (snd (last [([109 / 100], empty_meta\<lparr>prompt := Some (Linear (91 / 100) (9 / 100)),
         start_percent := Some 0, end_percent := Some (13 / 100), pooled_output := Some [5]\<rparr>)]))
        = Some (py_round2 (case Some (63 / 500) of Some a \<Rightarrow> a | None \<Rightarrow> 1))"
proof -
  have a: "[([1], empty_meta\<lparr>pooled_output := Some [5]\<rparr>)] \<noteq> ([] :: cond list)"
    and b: "[([2], empty_meta)] \<noteq> ([] :: cond list)"
    by simp_all
  have c: "pooled_output (snd (hd [([1::rat], empty_meta\<lparr>pooled_output := Some [5]\<rparr>)])) \<noteq> None"
    by simp
  have d: "linear_interpolate_cond [([1], empty_meta\<lparr>pooled_output := Some [5]\<rparr>)]
             [([2], empty_meta\<lparr>pooled_output := Some [5]\<rparr>)] 0 1 (1 / 10) None (Some (63 / 500)) ''N/A''
           = Inr [([109 / 100], empty_meta\<lparr>prompt := Some (Linear (91 / 100) (9 / 100)),
               start_percent := Some 0, end_percent := Some (13 / 100), pooled_output := Some [5]\<rparr>)]"
    by code_simp
  have e: "[([109 / 100], empty_meta\<lparr>prompt := Some (Linear (91 / 100) (9 / 100)),
               start_percent := Some 0, end_percent := Some (13 / 100), pooled_output := Some [5]\<rparr>)]
           \<noteq> ([] :: cond list)"
    by simp
  show ?thesis
    using lic_ten_steps [OF a b c d e, of "''N/A''"] by auto
qed

text \<open>
  The claim as stated fails twice: with \<open>end_at = 0.126\<close> the one emitted segment ends at
  \<open>0.13\<close>, not at \<open>end_at\<close>; and on non-empty lists of equal length without pooled outputs
  nothing is emitted.
\<close>

theorem lic_end_percent_counterexample:
  "linear_interpolate_cond [([1], empty_meta\<lparr>pooled_output := Some [5]\<rparr>)]
     [([2], empty_meta\<lparr>pooled_output := Some [5]\<rparr>)] 0 1 (1 / 10) None (Some (63 / 500)) ''N/A''
   = Inr [([109 / 100], empty_meta\<lparr>prompt := Some (Linear (91 / 100) (9 / 100)),
            start_percent := Some 0, end_percent := Some (13 / 100), pooled_output := Some [5]\<rparr>)]
   \<and> (13 / 100 :: rat) \<noteq> 63 / 500
   \<and> linear_interpolate_cond [([1], empty_meta)] [([2], empty_meta)] 0 1 (1 / 10) None None ''N/A''
       = Inl UnboundLocalError"
  by code_simp

lemma walk_pairs_Nil: "walk_pairs o_start o_end step start_pct end_pct [] = Inr []"
  by (simp add: walk_pairs_def)

lemma walk_pairs_walks:
  assumes "walks_on o_start o_end step start_pct end_pct p"
  shows "walk_pairs o_start o_end step start_pct end_pct (p # pairs) =
           (case walk_pairs o_start o_end step start_pct end_pct pairs of
              Inl err \<Rightarrow> Inl err
            | Inr conds \<Rightarrow> Inr (walked_segments o_start o_end step start_pct end_pct p @ conds))"
proof (cases "dropWhile (walks_on o_start o_end step start_pct end_pct) pairs")
  case Nil
  show ?thesis
    by (simp add: walk_pairs_def Let_def assms Nil del: dropWhile_eq_Nil_conv)
next
  case (Cons q later)
  show ?thesis
    by (simp add: walk_pairs_def Let_def assms Cons split: sum.split)
qed

lemma walk_pairs_stops:
  assumes "\<not> walks_on o_start o_end step start_pct end_pct p"
  shows "walk_pairs o_start o_end step start_pct end_pct (p # pairs) =
           (if end_pct \<le> fst (fst p) then Inr []
            else (case pair_segments o_start o_end step end_pct p of
                    Inl err \<Rightarrow> Inl err
                  | Inr cs \<Rightarrow> Inr []))"
  using assms by (simp add: walk_pairs_def)

lemma interpolator_loop_walk:
  "interpolator_loop o_start o_end step start_pct end_pct t_start start rest =
     walk_pairs o_start o_end step start_pct end_pct (zip ((t_start, start) # rest) rest)"
proof (induction rest arbitrary: t_start start)
  case Nil
  then show ?case by (simp add: walk_pairs_Nil)
next
  case (Cons c rest)
  obtain t_end e where c: "c = (t_end, e)" by (cases c)
  let ?p = "((t_start, start), (t_end, e))"
  let ?ps = "zip ((t_end, e) # rest) rest"
  have z: "zip ((t_start, start) # c # rest) (c # rest) = ?p # ?ps"
    by (simp add: c)
  show ?case
  proof (cases "walks_on o_start o_end step start_pct end_pct ?p")
    case True
    show ?thesis
      unfolding z walk_pairs_walks [OF True]
      using True
      by (auto simp: c Cons.IH walks_on_def walked_segments_def pair_segments_def
               split: if_splits sum.splits)
  next
    case False
    show ?thesis
      unfolding z walk_pairs_stops [OF False]
      using False
      by (auto simp: c walks_on_def pair_segments_def split: if_splits sum.splits)
  qed
qed

text \<open>
  C9. \<open>linear_interpolator\<close> computes what the specification describes: it walks the
  consecutive control-point pairs in order, skips every pair that starts below \<open>start_pct\<close>,
  stops before a pair that starts at or after \<open>end_pct\<close>, concatenates the
  \<open>linear_interpolate_cond\<close> output of each in-range pair, and ends the whole walk at the
  first in-range pair that yields no segment, so that no later pair contributes.
\<close>

theorem linear_interpolator_refines:
  "linear_interpolator control_points step start_pct end_pct
     = linear_interpolator_spec control_points step start_pct end_pct"
proof (cases control_points)
  case Nil
  then show ?thesis
    by (simp add: linear_interpolator_def linear_interpolator_spec_def)
next
  case (Cons c rest)
  obtain o_start start where c: "c = (o_start, start)" by (cases c)
  show ?thesis
    unfolding Cons c
    by (simp add: linear_interpolator_def linear_interpolator_spec_def interpolator_loop_walk
             del: interpolator_loop.simps)
qed

theorem linear_interpolator_refines_witness:
  "linear_interpolator_spec
     [(0, [([1], empty_meta\<lparr>pooled_output := Some [0]\<rparr>)]),
      (1 / 2, [([3], empty_meta\<lparr>pooled_output := Some [0]\<rparr>)]),
      (1, [([5], empty_meta\<lparr>pooled_output := Some [0]\<rparr>)])] (1 / 2) (1 / 2) 1
   = Inr [([217 / 50], empty_meta\<lparr>prompt := Some (Linear (33 / 100) (67 / 100)),
            start_percent := Some (1 / 2), end_percent := Some 1, pooled_output := Some [0]\<rparr>)]
   \<and> linear_interpolator_spec
     [(0, [([1], empty_meta\<lparr>pooled_output := Some [0]\<rparr>)]),
      (1 / 2, []),
      (1, [([5], empty_meta\<lparr>pooled_output := Some [0]\<rparr>)])] (1 / 2) 0 1
   = Inr []"
proof -
  have a: "linear_interpolator
     [(0, [([1], empty_meta\<lparr>pooled_output := Some [0]\<rparr>)]),
      (1 / 2, [([3], empty_meta\<lparr>pooled_output := Some [0]\<rparr>)]),
      (1, [([5], empty_meta\<lparr>pooled_output := Some [0]\<rparr>)])] (1 / 2) (1 / 2) 1
   = Inr [([217 / 50], empty_meta\<lparr>prompt := Some (Linear (33 / 100) (67 / 100)),
            start_percent := Some (1 / 2), end_percent := Some 1, pooled_output := Some [0]\<rparr>)]"
    by code_simp
  have b: "linear_interpolator
     [(0, [([1], empty_meta\<lparr>pooled_output := Some [0]\<rparr>)]),
      (1 / 2, []),
      (1, [([5], empty_meta\<lparr>pooled_output := Some [0]\<rparr>)])] (1 / 2) 0 1
   = Inr []"
    by code_simp
  show ?thesis
    using a b by (simp only: linear_interpolator_refines)
qed

section \<open>Properties of the directive extractor and of the encoder\<close>

text \<open>
  C7. For \<open>SDXL(1024 1024, 640 480, 0 0)\<close> the options returned by \<open>get_sdxl\<close> have
  \<open>target_height = 640\<close>, the integer of \<open>tw\<close>, and not 480, the integer of \<open>th\<close>.
\<close>

theorem get_sdxl_target_height:
  "get_sdxl ''SDXL(1024 1024, 640 480, 0 0)''
     = ([], Some \<lparr>width = 1024, height = 1024, target_width = 640, target_height = 640,
                   crop_w = 0, crop_h = 0\<rparr>)"
  by code_simp

text \<open>
  C6. On a canvas of width 4 and height 4, \<open>MASK(0 1, 0.5 1)\<close> (all columns, rows 2 and 3)
  gives a mask that is 0 everywhere, and \<open>MASK(0 0.5, 0 1)\<close> (columns 0 and 1, all rows)
  gives a mask that is 1 on the rows 0 and 1 in all columns.
\<close>

theorem get_mask_rectangle:
  "get_mask ''MASK(0 1, 0.5 1)'' (4, 4)
     = Inr ([], Some ([[[0, 0, 0, 0], [0, 0, 0, 0], [0, 0, 0, 0], [0, 0, 0, 0]]], 1))
   \<and> get_mask ''MASK(0 0.5, 0 1)'' (4, 4)
     = Inr ([], Some ([[[1, 1, 1, 1], [1, 1, 1, 1], [0, 0, 0, 0], [0, 0, 0, 0]]], 1))"
  by code_simp


lemma a2b1_style:
  "get_function ''a:2 AND b:1'' ''STYLE'' [''comfy'', ''none''] = (''a:2 AND b:1'', [])"
  by code_simp

lemma a2b1_mask_size: "get_mask_size ''a:2 AND b:1'' = Inr (''a:2 AND b:1'', (512, 512))"
  by code_simp

lemma a2b1_split:
  "contains ''COMFYAND()'' ''a:2 AND b:1'' = False"
  "remove_all ''COMFYAND()'' ''a:2 AND b:1'' = ''a:2 AND b:1''"
  "map strip (split_AND False 0 ''a:2 AND b:1'') = [''a:2'', ''b:1'']"
  by code_simp+

lemma a2b1_first: "get_sdxl ''a:2'' = (''a:2'', None)"
  by code_simp

lemma a2b1_scale:
  "sum_list (map (\<lambda>q. \<bar>fst (weight q)\<bar>)
     (filter (\<lambda>q. \<not> (contains ''AREA('' q \<or> contains ''MASK('' q)) [''a:2'', ''b:1''])) = 3"
  by code_simp

lemma a2b1_loop_parts:
  "get_mask ''a:2'' (512, 512) = Inr (''a:2'', None)"
  "get_mask ''b:1'' (512, 512) = Inr (''b:1'', None)"
  "weight ''a:2'' = (2, False, ''a'')"
  "weight ''b:1'' = (1, False, ''b'')"
  "get_noise ''a:2 AND b:1'' = (''a:2 AND b:1'', None)"
  "get_area ''a'' = Inr (''a'', None)"
  "get_area ''b'' = Inr (''b'', None)"
  by code_simp+

lemma pad_to_length: "pad_to (length t) t = t"
  by (simp add: pad_to_def)

lemma equalize_same_length:
  "length a = length b \<Longrightarrow> equalize [a, b] = [a, b]"
  by (simp add: equalize_def pad_to_def)

lemma do_encode_eval:
  assumes "get_style (available_styles ext) (available_normalizations ext) text
             ''comfy'' ''none'' = (style, normalization, text1)"
    and "get_mask_size text1 = Inr (text2, mask_size)"
    and "map strip (split_AND False 0 (remove_all ''COMFYAND()'' text2)) = first # rest"
    and "get_sdxl first = (p, sdxl_options)"
    and "sum_list (map (\<lambda>q. \<bar>fst (weight q)\<bar>)
           (filter (\<lambda>q. \<not> (contains ''AREA('' q \<or> contains ''MASK('' q)) (p # rest))) = scale"
    and "encode_loop ext clp style normalization mask_size (contains ''COMFYAND()'' text2) p
           sdxl_options scale (p # rest) (remove_all ''COMFYAND()'' text2) = r"
  shows "do_encode ext clp text =
           (case r of
              Inl err \<Rightarrow> Inl err
            | Inr (conds, res) \<Rightarrow>
                if res = [] then Inr conds
                else Inr (conds @
                  [(tsum (equalize (map (\<lambda>r. tscale (fst r) (snd (snd r))) res)),
                    (if concat (map (\<lambda>r. case fst (snd r) of None \<Rightarrow> [] | Some po \<Rightarrow> [po]) res) = []
                     then empty_meta\<lparr>sdxl := sdxl_options\<rparr>
                     else empty_meta\<lparr>sdxl := sdxl_options,
                            pooled_output := Some (tsum (equalize
                              (concat (map (\<lambda>r. case fst (snd r) of
                                  None \<Rightarrow> [] | Some po \<Rightarrow> [po]) res))))\<rparr>))]))"
proof -
  have "do_encode ext clp text =
          (case encode_loop ext clp style normalization mask_size (contains ''COMFYAND()'' text2) p
                  sdxl_options scale (p # rest) (remove_all ''COMFYAND()'' text2) of
              Inl err \<Rightarrow> Inl err
            | Inr (conds, res) \<Rightarrow>
                if res = [] then Inr conds
                else Inr (conds @
                  [(tsum (equalize (map (\<lambda>r. tscale (fst r) (snd (snd r))) res)),
                    (if concat (map (\<lambda>r. case fst (snd r) of None \<Rightarrow> [] | Some po \<Rightarrow> [po]) res) = []
                     then empty_meta\<lparr>sdxl := sdxl_options\<rparr>
                     else empty_meta\<lparr>sdxl := sdxl_options,
                            pooled_output := Some (tsum (equalize
                              (concat (map (\<lambda>r. case fst (snd r) of
                                  None \<Rightarrow> [] | Some po \<Rightarrow> [po]) res))))\<rparr>))]))"
    unfolding do_encode_def assms(1) prod.case assms(2) sum.case Let_def assms(3) list.case
      assms(4) assms(5)
    by (rule sum.case_cong) (auto simp: Let_def)
  then show ?thesis
    by (simp only: assms(6))
qed

lemma encode_loop_skip:
  assumes "get_mask prmpt mask_size = Inr (prompt1, msk)"
    and "weight prompt1 = (0, noscale, prompt2)"
    and "get_noise text = (text', noise)"
  shows "encode_loop ext clp style normalization mask_size alt_method p sdxl_options scale
           (prmpt # rest) text
         = encode_loop ext clp style normalization mask_size alt_method p sdxl_options scale
             rest text'"
  by (simp add: assms)

lemma encode_loop_summed:
  assumes "get_mask prmpt mask_size = Inr (prompt1, None)"
    and "weight prompt1 = (w, noscale, prompt2)" and "w \<noteq> 0"
    and "get_noise text = (text', noise)"
    and "get_area prompt2 = Inr (prompt3, None)"
    and "get_sdxl p = (prompt4, None)"
    and "(if noscale then 1 else scale) \<noteq> 0"
    and "encode_prompt ext clp prompt4 style normalization = (cond0, pooled0)"
  shows "encode_loop ext clp style normalization mask_size False p sdxl_options scale
           (prmpt # rest) text
         = (case encode_loop ext clp style normalization mask_size False p sdxl_options scale
                   rest text' of
              Inl err \<Rightarrow> Inl err
            | Inr (conds, res) \<Rightarrow>
                Inr (conds, (apply_noise ext 0 cond0 noise,
                             map_option (\<lambda>t. apply_noise ext 1 t noise) pooled0,
                             w / (if noscale then 1 else scale)) # res))"
  using assms(3,7) by (auto simp add: assms(1,2,4,5,6,8) Let_def split: sum.splits)

text \<open>
  C2. For every token encoder and handle, \<open>do_encode\<close> on \<open>a:2 AND b:1\<close> returns one
  summed segment; the shared scale is 3 and the two terms are weighted by \<open>2/3\<close> and
  \<open>1/3\<close>; but both terms are the encoding of the text \<open>a:2\<close>, the first sub-prompt with
  its weight suffix, and neither is the encoding of \<open>a\<close> or of \<open>b\<close>.
\<close>

theorem do_encode_a2_and_b1:
  "do_encode ext clp ''a:2 AND b:1''
     = Inr [(tsum (equalize
               [tscale (fst (encode_prompt ext clp ''a:2'' ''comfy'' ''none'')) (2 / 3),
                tscale (fst (encode_prompt ext clp ''a:2'' ''comfy'' ''none'')) (1 / 3)]),
             (case snd (encode_prompt ext clp ''a:2'' ''comfy'' ''none'') of
                None \<Rightarrow> empty_meta
              | Some po \<Rightarrow> empty_meta\<lparr>pooled_output := Some (tsum (equalize [po, po]))\<rparr>))]"
proof -
  obtain cnd po where e: "encode_prompt ext clp ''a:2'' ''comfy'' ''none'' = (cnd, po)"
    by (cases "encode_prompt ext clp ''a:2'' ''comfy'' ''none''")
  have n: "apply_noise ext k t None = t" for k t
    by (simp add: apply_noise_def)
  have l2: "encode_loop ext clp ''comfy'' ''none'' (512, 512) False ''a:2'' None 3
              [''b:1''] ''a:2 AND b:1'' = Inr ([], [(cnd, po, 1 / 3)])"
    using encode_loop_summed [where ext = ext and clp = clp and rest = "[]" and scale = 3
        and sdxl_options = None,
        OF a2b1_loop_parts(2) a2b1_loop_parts(4) _ a2b1_loop_parts(5) a2b1_loop_parts(7)
           a2b1_first _ e]
    by (simp add: n option.map_ident)
  have l1: "encode_loop ext clp ''comfy'' ''none'' (512, 512) False ''a:2'' None 3
              [''a:2'', ''b:1''] ''a:2 AND b:1'' = Inr ([], [(cnd, po, 2 / 3), (cnd, po, 1 / 3)])"
    using encode_loop_summed [where ext = ext and clp = clp and rest = "[''b:1'']"
        and scale = 3 and sdxl_options = None,
        OF a2b1_loop_parts(1) a2b1_loop_parts(3) _ a2b1_loop_parts(5) a2b1_loop_parts(6)
           a2b1_first _ e]
    by (simp add: n option.map_ident l2 del: encode_loop.simps)
  have s: "get_style (available_styles ext) (available_normalizations ext) ''a:2 AND b:1''
             ''comfy'' ''none'' = (''comfy'', ''none'', ''a:2 AND b:1'')"
    by (simp add: get_style_def a2b1_style)
  have l1': "encode_loop ext clp ''comfy'' ''none'' (512, 512)
               (contains ''COMFYAND()'' ''a:2 AND b:1'') ''a:2'' None 3
               (''a:2'' # [''b:1'']) (remove_all ''COMFYAND()'' ''a:2 AND b:1'')
             = Inr ([], [(cnd, po, 2 / 3), (cnd, po, 1 / 3)])"
    by (simp only: a2b1_split l1)
  have sp: "map strip (split_AND False 0 (remove_all ''COMFYAND()'' ''a:2 AND b:1''))
              = ''a:2'' # [''b:1'']"
    by (simp only: a2b1_split)
  show ?thesis
    unfolding do_encode_eval [OF s a2b1_mask_size sp a2b1_first a2b1_scale l1'] e
    by (cases po) (simp_all add: empty_meta_def)
qed

theorem do_encode_a2_and_b1_witness:
  "do_encode example_externals [] ''a:2 AND b:1''
     = Inr [([97, 58, 50], empty_meta\<lparr>pooled_output := Some [194]\<rparr>)]
   \<and> tscale (tadd (tscale (fst (encode_prompt example_externals [] ''a'' ''comfy'' ''none'')) 2)
                    (fst (encode_prompt example_externals [] ''b'' ''comfy'' ''none''))) (1 / 3)
     = [292 / 3]"
proof -
  have e: "encode_prompt example_externals [] ''a:2'' ''comfy'' ''none'' = ([97, 58, 50], Some [97])"
    by code_simp
  have t: "tsum (equalize [tscale [97, 58, 50] (2 / 3), tscale [97, 58, 50] (1 / 3)]) = [97, 58, 50]"
    by code_simp
  have p: "tsum (equalize [[97], [97]]) = [194]"
    by code_simp
  have c: "tscale (tadd (tscale (fst (encode_prompt example_externals [] ''a'' ''comfy'' ''none'')) 2)
                    (fst (encode_prompt example_externals [] ''b'' ''comfy'' ''none''))) (1 / 3)
     = [292 / 3]"
    by code_simp
  show ?thesis
    using do_encode_a2_and_b1 [of example_externals "[]"] c by (simp add: e t p)
qed

lemma get_area_eval:
  assumes "get_function text ''AREA'' [''0 1'', ''0 1'', ''1''] = (text', args # others)"
    and "parse_floats (args ! 0) (0, 1) = (x, w)"
    and "parse_floats (args ! 1) (0, 1) = (y, h)"
  shows "get_area text =
           (if list_all is_pct [h, w, y, x]
            then Inr (text', Some (Percentage h w y x, safe_float (args ! 2) 1))
            else if list_all is_pixel [h, w, y, x]
            then Inr (text', Some (Pixels (py_int h div 8) (py_int w div 8)
                                          (py_int y div 8) (py_int x div 8),
                                   safe_float (args ! 2) 1))
            else Inl FormatError)"
  unfolding get_area_def assms(1) prod.case list.case Let_def assms(2) assms(3)
  by simp

lemma get_mask_eval:
  assumes "get_function text ''MASK'' [''0 1'', ''0 1'', ''1''] = (text', args # others)"
    and "parse_floats (args ! 0) (0, 1) = (x1, x2)"
    and "parse_floats (args ! 1) (0, 1) = (y1, y2)"
  shows "get_mask text (w, h) =
           (if list_all is_pct [x1, x2, y1, y2]
            then (if w < 0 \<or> h < 0 then Inl RuntimeError
                  else Inr (text',
                    Some (make_mask w h (py_int (of_int h * y1), py_int (of_int h * y2))
                                        (py_int (of_int w * x1), py_int (of_int w * x2)),
                          safe_float (args ! 2) 1)))
            else if list_all is_pixel [x1, x2, y1, y2]
            then (if w < 0 \<or> h < 0 then Inl RuntimeError
                  else Inr (text',
                    Some (make_mask w h (py_int y1, py_int y2) (py_int x1, py_int x2),
                          safe_float (args ! 2) 1)))
            else Inl FormatError)"
  unfolding get_mask_def assms(1) prod.case list.case Let_def assms(2) assms(3)
  by simp

lemma py_int_floor: "0 \<le> q \<Longrightarrow> py_int q = \<lfloor>q\<rfloor>"
  by (simp add: py_int_def)

lemma is_pixel_nonneg: "is_pixel q \<Longrightarrow> 0 \<le> q"
  by (auto simp: is_pixel_def)

lemma encode_loop_Cons_error:
  assumes h: "encode_loop ext clp style normalization mask_size alt_method p sdxl_options scale
             (a # pre) noise_text = Inr ok"
  shows "(\<exists>ok'. encode_loop ext clp style normalization mask_size alt_method p sdxl_options scale
                  pre (fst (get_noise noise_text)) = Inr ok')
       \<and> (encode_loop ext clp style normalization mask_size alt_method p sdxl_options scale
             q (fst (get_noise noise_text)) = Inl err
          \<longrightarrow> encode_loop ext clp style normalization mask_size alt_method p sdxl_options scale
                (a # q) noise_text = Inl err)"
proof (cases "get_mask a mask_size")
  case (Inl e)
  with h show ?thesis by simp
next
  case (Inr pm)
  obtain stripped msk where pm: "pm = (stripped, msk)" by (cases pm)
  obtain w noscale unweighted where wt: "weight stripped = (w, noscale, unweighted)"
    by (cases "weight stripped")
  obtain text' noise where gn: "get_noise noise_text = (text', noise)"
    by (cases "get_noise noise_text")
  note f1 = Inr pm wt gn
  show ?thesis
  proof (cases "w = 0")
    case True
    with h show ?thesis by (simp add: f1)
  next
    case False
    show ?thesis
    proof (cases "get_area unweighted")
      case (Inl e)
      with h False show ?thesis by (simp add: f1)
    next
      case (Inr pa)
      obtain plain ar where pa: "pa = (plain, ar)" by (cases pa)
      obtain encoded lso where gs: "get_sdxl p = (encoded, lso)" by (cases "get_sdxl p")
      obtain cond0 pooled0 where
        ep: "encode_prompt ext clp encoded style normalization = (cond0, pooled0)"
        by (cases "encode_prompt ext clp encoded style normalization")
      note f2 = f1 False Inr pa gs ep
      show ?thesis
      proof (cases "encode_loop ext clp style normalization mask_size alt_method p sdxl_options
                      scale pre text'")
        case (Inl e)
        with h show ?thesis by (simp add: f2 Let_def split: if_splits)
      next
        case r: (Inr ok')
        have z: "\<not> (msk \<noteq> None \<or> ar \<noteq> None \<or> alt_method \<or> lso \<noteq> None)
                 \<Longrightarrow> (if noscale then 1 else scale) \<noteq> 0"
          using h by (auto simp add: f2 Let_def split: if_splits)
        show ?thesis
          using z by (auto simp add: f2 r Let_def)
      qed
    qed
  qed
qed

lemma encode_loop_append_error:
  assumes "encode_loop ext clp style normalization mask_size alt_method p sdxl_options scale
             pre noise_text = Inr ok"
    and "\<forall>t. encode_loop ext clp style normalization mask_size alt_method p sdxl_options scale
               q t = Inl err"
  shows "encode_loop ext clp style normalization mask_size alt_method p sdxl_options scale
           (pre @ q) noise_text = Inl err"
  using assms(1)
proof (induction pre arbitrary: noise_text ok)
  case Nil
  then show ?case using assms(2) by simp
next
  case (Cons a pre)
  from encode_loop_Cons_error [OF Cons.prems, of "pre @ q" err]
  obtain ok' where
    a: "encode_loop ext clp style normalization mask_size alt_method p sdxl_options scale
          pre (fst (get_noise noise_text)) = Inr ok'"
    and b: "encode_loop ext clp style normalization mask_size alt_method p sdxl_options scale
             (pre @ q) (fst (get_noise noise_text)) = Inl err
          \<Longrightarrow> encode_loop ext clp style normalization mask_size alt_method p sdxl_options scale
                (a # pre @ q) noise_text = Inl err"
    by blast
  from b [OF Cons.IH [OF a]] show ?case by simp
qed

lemma schedule_loop_Cons_error:
  assumes h: "schedule_loop ext orig_clip schedule ((end_pct, c) # pre) start_pct st
                = Inr (conds, st1)"
  shows "\<exists>conds2 st2. schedule_loop ext orig_clip schedule pre end_pct st2 = Inr (conds2, st1)
           \<and> (schedule_loop ext orig_clip schedule q end_pct st2 = Inl err
                \<longrightarrow> schedule_loop ext orig_clip schedule ((end_pct, c) # q) start_pct st = Inl err)"
proof -
  define specs where "specs = filter (\<lambda>i. (hd (fst i) \<le> start_pct \<and> start_pct < last (fst i))
                                 \<or> (hd (fst i) < end_pct \<and> start_pct < last (fst i)))
                       (interpolations schedule)"
  define X where "X = (if specs = [] then Inr ([], st, start_pct)
                  else interpolate_specs ext orig_clip schedule (Min (set (map snd specs)))
                         start_pct end_pct specs st start_pct)"
  have ne: "\<not> list_ex (\<lambda>i. fst i = []) (interpolations schedule)"
    using h by (auto split: if_splits)
  have u: "schedule_loop ext orig_clip schedule ((end_pct, c) # r) start_pct st =
     (case X of
        Inl err \<Rightarrow> Inl err
      | Inr (conds1, st1, start_pct1) \<Rightarrow>
          (case (if start_pct1 < end_pct
                 then (case encode ext orig_clip st1 c of
                         Inl err \<Rightarrow> Inl err
                       | Inr (cnd, st2) \<Rightarrow>
                           Inr (map (stamp start_pct1 end_pct (seg_prompt c)) cnd, st2))
                 else Inr ([], st1)) of
             Inl err \<Rightarrow> Inl err
           | Inr (conds2, st2) \<Rightarrow>
               (case schedule_loop ext orig_clip schedule r end_pct st2 of
                  Inl err \<Rightarrow> Inl err
                | Inr (conds3, st3) \<Rightarrow> Inr (conds1 @ conds2 @ conds3, st3))))" for r
    unfolding schedule_loop.simps X_def specs_def Let_def using ne by simp
  show ?thesis
  proof (cases X)
    case (Inl e)
    with h show ?thesis unfolding u by simp
  next
    case (Inr x)
    obtain conds1 st1' sp1 where x: "x = (conds1, st1', sp1)" by (cases x)
    define Y where "Y = (if sp1 < end_pct
                       then (case encode ext orig_clip st1' c of
                               Inl err \<Rightarrow> Inl err
                             | Inr (cnd, st2) \<Rightarrow>
                                 Inr (map (stamp sp1 end_pct (seg_prompt c)) cnd, st2))
                       else Inr ([], st1'))"
    have u2: "schedule_loop ext orig_clip schedule ((end_pct, c) # r) start_pct st =
       (case Y of
          Inl err \<Rightarrow> Inl err
        | Inr (conds2, st2) \<Rightarrow>
            (case schedule_loop ext orig_clip schedule r end_pct st2 of
               Inl err \<Rightarrow> Inl err
             | Inr (conds3, st3) \<Rightarrow> Inr (conds1 @ conds2 @ conds3, st3)))" for r
      unfolding u Inr x Y_def by simp
    show ?thesis
    proof (cases Y)
      case (Inl e)
      with h show ?thesis unfolding u2 by simp
    next
      case y: (Inr yv)
      obtain conds2 st2 where yv: "yv = (conds2, st2)" by (cases yv)
      have u3: "schedule_loop ext orig_clip schedule ((end_pct, c) # r) start_pct st =
                  (case schedule_loop ext orig_clip schedule r end_pct st2 of
                     Inl err \<Rightarrow> Inl err
                   | Inr (conds3, st3) \<Rightarrow> Inr (conds1 @ conds2 @ conds3, st3))" for r
        unfolding u2 y yv by simp
      show ?thesis
      proof (cases "schedule_loop ext orig_clip schedule pre end_pct st2")
        case (Inl e)
        with h show ?thesis unfolding u3 by simp
      next
        case r: (Inr z)
        obtain conds3 st3 where z: "z = (conds3, st3)" by (cases z)
        have "st3 = st1"
          using h unfolding u3 r z by simp
        then have "schedule_loop ext orig_clip schedule pre end_pct st2 = Inr (conds3, st1)"
          using r z by simp
        moreover have "schedule_loop ext orig_clip schedule q end_pct st2 = Inl err
                \<longrightarrow> schedule_loop ext orig_clip schedule ((end_pct, c) # q) start_pct st = Inl err"
          unfolding u3 by simp
        ultimately show ?thesis by blast
      qed
    qed
  qed
qed

lemma schedule_loop_append_error:
  assumes "schedule_loop ext orig_clip schedule pre start_pct st = Inr (conds, st1)"
    and "schedule_loop ext orig_clip schedule q (if pre = [] then start_pct else fst (last pre)) st1
           = Inl err"
  shows "schedule_loop ext orig_clip schedule (pre @ q) start_pct st = Inl err"
  using assms
proof (induction pre arbitrary: start_pct st conds)
  case Nil
  then show ?case by simp
next
  case (Cons e pre)
  obtain end_pct c where e: "e = (end_pct, c)" by (cases e)
  from schedule_loop_Cons_error [OF Cons.prems(1) [unfolded e], of "pre @ q" err]
  obtain conds2 st2 where
    a: "schedule_loop ext orig_clip schedule pre end_pct st2 = Inr (conds2, st1)"
    and b: "schedule_loop ext orig_clip schedule (pre @ q) end_pct st2 = Inl err
            \<Longrightarrow> schedule_loop ext orig_clip schedule ((end_pct, c) # pre @ q) start_pct st = Inl err"
    by blast
  have l: "(if e # pre = [] then start_pct else fst (last (e # pre)))
             = (if pre = [] then end_pct else fst (last pre))"
    by (simp add: e)
  have "schedule_loop ext orig_clip schedule (pre @ q) end_pct st2 = Inl err"
    by (rule Cons.IH [OF a Cons.prems(2) [unfolded l]])
  from b [OF this] show ?case by (simp add: e)
qed

text \<open>
  C3, as amended. \<open>get_area\<close> and \<open>get_mask\<close> read the first \<open>AREA\<close> or \<open>MASK\<close>
  directive of the text they are given, and no other. Let the four range values of that
  first directive be given. If they are neither all percentages in \<open>[0,1]\<close> nor all pixel
  magnitudes (zero or above 1), \<open>get_area\<close> and \<open>get_mask\<close> raise the format error. If they
  are all percentages, \<open>get_area\<close> returns the symbolic percentage area; if they are all pixel
  magnitudes and not all percentages, it returns them floored and divided by 8 (integer
  division). On all percentages or all pixel magnitudes \<open>get_mask\<close> does not raise the format
  error: it returns a mask when the canvas has no negative dimension, and raises the error of
  \<open>torch.full\<close> when it has one.

  Nothing catches an error. In the loop of \<open>do_encode\<close>, whatever the sub-prompts before (which
  raised nothing), an error of \<open>get_mask\<close> on a sub-prompt, and an error of \<open>get_area\<close> on a
  sub-prompt whose weight is not zero, is the result of the loop; an error of the loop is the
  result of \<open>do_encode\<close>; an error of \<open>do_encode\<close> on a cache miss is the result of \<open>encode\<close>;
  in a schedule without interpolation specs, whatever the entries before (which raised
  nothing), an error of \<open>encode\<close> on an entry is the result of the orchestrator loop; and an
  error of that loop is the result of \<open>control_to_clip_common\<close>.
\<close>

theorem area_mask_units:
  assumes "get_function text ''AREA'' [''0 1'', ''0 1'', ''1''] = (text', args # others)"
    and "parse_floats (args ! 0) (0, 1) = (x, w)"
    and "parse_floats (args ! 1) (0, 1) = (y, h)"
    and "get_function mtext ''MASK'' [''0 1'', ''0 1'', ''1''] = (mtext', margs # mothers)"
    and "parse_floats (margs ! 0) (0, 1) = (x1, x2)"
    and "parse_floats (margs ! 1) (0, 1) = (y1, y2)"
  shows "(\<not> list_all is_pct [h, w, y, x] \<and> \<not> list_all is_pixel [h, w, y, x]
            \<longrightarrow> get_area text = Inl FormatError)
       \<and> (list_all is_pct [h, w, y, x]
            \<longrightarrow> get_area text = Inr (text', Some (Percentage h w y x, safe_float (args ! 2) 1)))
       \<and> (list_all is_pixel [h, w, y, x] \<and> \<not> list_all is_pct [h, w, y, x]
            \<longrightarrow> get_area text
                  = Inr (text', Some (Pixels (\<lfloor>h\<rfloor> div 8) (\<lfloor>w\<rfloor> div 8) (\<lfloor>y\<rfloor> div 8) (\<lfloor>x\<rfloor> div 8),
                                      safe_float (args ! 2) 1)))
       \<and> (\<not> list_all is_pct [x1, x2, y1, y2] \<and> \<not> list_all is_pixel [x1, x2, y1, y2]
            \<longrightarrow> get_mask mtext (cw, ch) = Inl FormatError)
       \<and> (list_all is_pct [x1, x2, y1, y2] \<or> list_all is_pixel [x1, x2, y1, y2]
            \<longrightarrow> get_mask mtext (cw, ch) \<noteq> Inl FormatError
                \<and> (0 \<le> cw \<and> 0 \<le> ch
                     \<longrightarrow> (\<exists>m. get_mask mtext (cw, ch)
                                 = Inr (mtext', Some (m, safe_float (margs ! 2) 1))))
                \<and> (cw < 0 \<or> ch < 0 \<longrightarrow> get_mask mtext (cw, ch) = Inl RuntimeError))
       \<and> (encode_loop ext clp style normalization mask_size alt_method p sdxl_options scale
              pre noise_text = Inr ok
              \<and> get_mask prmpt mask_size = Inl err
            \<longrightarrow> encode_loop ext clp style normalization mask_size alt_method p sdxl_options
                  scale (pre @ prmpt # rest) noise_text = Inl err)
       \<and> (encode_loop ext clp style normalization mask_size alt_method p sdxl_options scale
              pre noise_text = Inr ok
              \<and> get_mask prmpt mask_size = Inr (stripped, msk) \<and> fst (weight stripped) \<noteq> 0
              \<and> get_area (snd (snd (weight stripped))) = Inl err
            \<longrightarrow> encode_loop ext clp style normalization mask_size alt_method p sdxl_options
                  scale (pre @ prmpt # rest) noise_text = Inl err)
       \<and> (get_style (available_styles ext) (available_normalizations ext) whole ''comfy'' ''none''
              = (style, normalization, styled)
              \<and> get_mask_size styled = Inr (sized, mask_size)
              \<and> map strip (split_AND False 0 (remove_all ''COMFYAND()'' sized)) = first # subs
              \<and> get_sdxl first = (p, sdxl_options)
              \<and> encode_loop ext clp style normalization mask_size (contains ''COMFYAND()'' sized)
                   p sdxl_options
                   (sum_list (map (\<lambda>q. \<bar>fst (weight q)\<bar>)
                      (filter (\<lambda>q. \<not> (contains ''AREA('' q \<or> contains ''MASK('' q)) (p # subs))))
                   (p # subs) (remove_all ''COMFYAND()'' sized) = Inl err
            \<longrightarrow> do_encode ext clp whole = Inl err)
       \<and> (cond_cache st (c_str ext c) = None
              \<and> do_encode ext
                   (if set (seg_loras c) \<noteq> set (current_loras st)
                    then load_clip_lora ext orig_clip (seg_loras c) else cur_clip st)
                   (seg_prompt c) = Inl err
            \<longrightarrow> encode ext orig_clip st c = Inl err)
       \<and> (interpolations schedule = []
              \<and> schedule_loop ext orig_clip schedule earlier start_pct st0 = Inr (conds, st)
              \<and> (if earlier = [] then start_pct else fst (last earlier)) < end_pct
              \<and> encode ext orig_clip st c = Inl err
            \<longrightarrow> schedule_loop ext orig_clip schedule (earlier @ (end_pct, c) # later) start_pct st0
                  = Inl err)
       \<and> (schedule_loop ext orig_clip schedule (entries schedule) 0
                \<lparr>cur_clip = orig_clip, current_loras = [],
                 cond_cache = (case cache of Some m \<Rightarrow> m | None \<Rightarrow> Map.empty), calls = []\<rparr>
              = Inl err
            \<longrightarrow> control_to_clip_common ext orig_clip schedule cache = Inl err)"
proof -
  note a = get_area_eval [OF assms(1-3)]
  note m = get_mask_eval [OF assms(4-6), of cw ch]
  have c1: "\<not> list_all is_pct [h, w, y, x] \<and> \<not> list_all is_pixel [h, w, y, x]
            \<longrightarrow> get_area text = Inl FormatError"
    by (simp add: a)
  have c2: "list_all is_pct [h, w, y, x]
            \<longrightarrow> get_area text = Inr (text', Some (Percentage h w y x, safe_float (args ! 2) 1))"
    by (simp add: a)
  have c3: "list_all is_pixel [h, w, y, x] \<and> \<not> list_all is_pct [h, w, y, x]
            \<longrightarrow> get_area text
                  = Inr (text', Some (Pixels (\<lfloor>h\<rfloor> div 8) (\<lfloor>w\<rfloor> div 8) (\<lfloor>y\<rfloor> div 8) (\<lfloor>x\<rfloor> div 8),
                                      safe_float (args ! 2) 1))"
    by (auto simp: a py_int_floor is_pixel_nonneg)
  have c4: "\<not> list_all is_pct [x1, x2, y1, y2] \<and> \<not> list_all is_pixel [x1, x2, y1, y2]
            \<longrightarrow> get_mask mtext (cw, ch) = Inl FormatError"
    by (simp add: m)
  have c5: "list_all is_pct [x1, x2, y1, y2] \<or> list_all is_pixel [x1, x2, y1, y2]
            \<longrightarrow> get_mask mtext (cw, ch) \<noteq> Inl FormatError
                \<and> (0 \<le> cw \<and> 0 \<le> ch
                     \<longrightarrow> (\<exists>m. get_mask mtext (cw, ch)
                                 = Inr (mtext', Some (m, safe_float (margs ! 2) 1))))
                \<and> (cw < 0 \<or> ch < 0 \<longrightarrow> get_mask mtext (cw, ch) = Inl RuntimeError)"
    unfolding m by auto
  have c6: "encode_loop ext clp style normalization mask_size alt_method p sdxl_options scale
              pre noise_text = Inr ok
              \<and> get_mask prmpt mask_size = Inl err
            \<longrightarrow> encode_loop ext clp style normalization mask_size alt_method p sdxl_options
                  scale (pre @ prmpt # rest) noise_text = Inl err"
    proof
    assume h: "encode_loop ext clp style normalization mask_size alt_method p sdxl_options scale
              pre noise_text = Inr ok
              \<and> get_mask prmpt mask_size = Inl err"
    then have "\<forall>t. encode_loop ext clp style normalization mask_size alt_method p sdxl_options
                      scale (prmpt # rest) t = Inl err"
      by simp
    from encode_loop_append_error [OF conjunct1 [OF h] this]
    show "encode_loop ext clp style normalization mask_size alt_method p sdxl_options
                  scale (pre @ prmpt # rest) noise_text = Inl err" .
  qed
  have c7: "encode_loop ext clp style normalization mask_size alt_method p sdxl_options scale
              pre noise_text = Inr ok
              \<and> get_mask prmpt mask_size = Inr (stripped, msk) \<and> fst (weight stripped) \<noteq> 0
              \<and> get_area (snd (snd (weight stripped))) = Inl err
            \<longrightarrow> encode_loop ext clp style normalization mask_size alt_method p sdxl_options
                  scale (pre @ prmpt # rest) noise_text = Inl err"
    proof
    assume h: "encode_loop ext clp style normalization mask_size alt_method p sdxl_options scale
              pre noise_text = Inr ok
              \<and> get_mask prmpt mask_size = Inr (stripped, msk) \<and> fst (weight stripped) \<noteq> 0
              \<and> get_area (snd (snd (weight stripped))) = Inl err"
    then have "\<forall>t. encode_loop ext clp style normalization mask_size alt_method p sdxl_options
                      scale (prmpt # rest) t = Inl err"
      by (auto simp: Let_def split: prod.splits)
    from encode_loop_append_error [OF conjunct1 [OF h] this]
    show "encode_loop ext clp style normalization mask_size alt_method p sdxl_options
                  scale (pre @ prmpt # rest) noise_text = Inl err" .
  qed
  have c8: "get_style (available_styles ext) (available_normalizations ext) whole ''comfy'' ''none''
              = (style, normalization, styled)
              \<and> get_mask_size styled = Inr (sized, mask_size)
              \<and> map strip (split_AND False 0 (remove_all ''COMFYAND()'' sized)) = first # subs
              \<and> get_sdxl first = (p, sdxl_options)
              \<and> encode_loop ext clp style normalization mask_size (contains ''COMFYAND()'' sized)
                   p sdxl_options
                   (sum_list (map (\<lambda>q. \<bar>fst (weight q)\<bar>)
                      (filter (\<lambda>q. \<not> (contains ''AREA('' q \<or> contains ''MASK('' q)) (p # subs))))
                   (p # subs) (remove_all ''COMFYAND()'' sized) = Inl err
            \<longrightarrow> do_encode ext clp whole = Inl err"
    proof
    assume h: "get_style (available_styles ext) (available_normalizations ext) whole ''comfy'' ''none''
              = (style, normalization, styled)
              \<and> get_mask_size styled = Inr (sized, mask_size)
              \<and> map strip (split_AND False 0 (remove_all ''COMFYAND()'' sized)) = first # subs
              \<and> get_sdxl first = (p, sdxl_options)
              \<and> encode_loop ext clp style normalization mask_size (contains ''COMFYAND()'' sized)
                   p sdxl_options
                   (sum_list (map (\<lambda>q. \<bar>fst (weight q)\<bar>)
                      (filter (\<lambda>q. \<not> (contains ''AREA('' q \<or> contains ''MASK('' q)) (p # subs))))
                   (p # subs) (remove_all ''COMFYAND()'' sized) = Inl err"
    then have h1: "get_style (available_styles ext) (available_normalizations ext) whole
                     ''comfy'' ''none'' = (style, normalization, styled)"
      and h2: "get_mask_size styled = Inr (sized, mask_size)"
      and h3: "map strip (split_AND False 0 (remove_all ''COMFYAND()'' sized)) = first # subs"
      and h4: "get_sdxl first = (p, sdxl_options)"
      and h5: "encode_loop ext clp style normalization mask_size (contains ''COMFYAND()'' sized)
                   p sdxl_options
                   (sum_list (map (\<lambda>q. \<bar>fst (weight q)\<bar>)
                      (filter (\<lambda>q. \<not> (contains ''AREA('' q \<or> contains ''MASK('' q)) (p # subs))))
                   (p # subs) (remove_all ''COMFYAND()'' sized) = Inl err"
      by blast+
    show "do_encode ext clp whole = Inl err"
      unfolding do_encode_eval [OF h1 h2 h3 h4 refl h5] by simp
  qed
  have c9: "cond_cache st (c_str ext c) = None
              \<and> do_encode ext
                   (if set (seg_loras c) \<noteq> set (current_loras st)
                    then load_clip_lora ext orig_clip (seg_loras c) else cur_clip st)
                   (seg_prompt c) = Inl err
            \<longrightarrow> encode ext orig_clip st c = Inl err"
    by (auto simp: encode_def Let_def)
  have c10: "interpolations schedule = []
              \<and> schedule_loop ext orig_clip schedule earlier start_pct st0 = Inr (conds, st)
              \<and> (if earlier = [] then start_pct else fst (last earlier)) < end_pct
              \<and> encode ext orig_clip st c = Inl err
            \<longrightarrow> schedule_loop ext orig_clip schedule (earlier @ (end_pct, c) # later) start_pct st0
                  = Inl err"
    proof
    assume h: "interpolations schedule = []
              \<and> schedule_loop ext orig_clip schedule earlier start_pct st0 = Inr (conds, st)
              \<and> (if earlier = [] then start_pct else fst (last earlier)) < end_pct
              \<and> encode ext orig_clip st c = Inl err"
    then have "schedule_loop ext orig_clip schedule ((end_pct, c) # later)
                 (if earlier = [] then start_pct else fst (last earlier)) st = Inl err"
      by simp
    from schedule_loop_append_error [OF conjunct1 [OF conjunct2 [OF h]] this]
    show "schedule_loop ext orig_clip schedule (earlier @ (end_pct, c) # later) start_pct st0
            = Inl err" .
  qed
  have c11: "schedule_loop ext orig_clip schedule (entries schedule) 0
                \<lparr>cur_clip = orig_clip, current_loras = [],
                 cond_cache = (case cache of Some m \<Rightarrow> m | None \<Rightarrow> Map.empty), calls = []\<rparr>
              = Inl err
            \<longrightarrow> control_to_clip_common ext orig_clip schedule cache = Inl err"
    by (simp add: control_to_clip_common_def run_schedule_def)
  from c1 c2 c3 c4 c5 c6 c7 c8 c9 c10 c11 show ?thesis
    by (intro conjI)
qed

lemma mixed_area_parts:
  "get_function ''AREA(0.2 0.8, 64 256, 1)'' ''AREA'' [''0 1'', ''0 1'', ''1'']
     = ([], [''0.2 0.8'', ''64 256'', ''1''] # [])"
  "parse_floats ([''0.2 0.8'', ''64 256'', ''1''] ! 0) (0, 1) = (1 / 5, 4 / 5)"
  "parse_floats ([''0.2 0.8'', ''64 256'', ''1''] ! 1) (0, 1) = (64, 256)"
  "get_function ''MASK(0.2 0.8, 64 256, 1)'' ''MASK'' [''0 1'', ''0 1'', ''1'']
     = ([], [''0.2 0.8'', ''64 256'', ''1''] # [])"
  by code_simp+

lemma pixel_area_parts:
  "get_function ''AREA(0 512, 64 256, 0.5)'' ''AREA'' [''0 1'', ''0 1'', ''1'']
     = ([], [''0 512'', ''64 256'', ''0.5''] # [])"
  "parse_floats ([''0 512'', ''64 256'', ''0.5''] ! 0) (0, 1) = (0, 512)"
  "parse_floats ([''0 512'', ''64 256'', ''0.5''] ! 1) (0, 1) = (64, 256)"
  "get_function ''MASK(0 0.5, 0 1)'' ''MASK'' [''0 1'', ''0 1'', ''1'']
     = ([], [''0 0.5'', ''0 1'', ''1''] # [])"
  "parse_floats ([''0 0.5'', ''0 1'', ''1''] ! 0) (0, 1) = (0, 1 / 2)"
  "parse_floats ([''0 0.5'', ''0 1'', ''1''] ! 1) (0, 1) = (0, 1)"
  by code_simp+

lemma mixed_loop_parts:
  "get_mask ''AREA(0.2 0.8, 64 256, 1)'' (512, 512) = Inr (''AREA(0.2 0.8, 64 256, 1)'', None)"
  "weight ''AREA(0.2 0.8, 64 256, 1)'' = (1, False, ''AREA(0.2 0.8, 64 256, 1)'')"
  "do_encode example_externals [] ''AREA(0.2 0.8, 64 256, 1)'' = Inl FormatError"
  "encode_loop example_externals [] ''comfy'' ''none'' (512, 512) False ''a'' None 1 [''a'']
     ''a AND AREA(0.2 0.8, 64 256, 1)'' = Inr ([], [([97], Some [97], 1)])"
  "encode_loop example_externals [] ''comfy'' ''none'' (4, 4) False ''a'' None 1 [''a''] ''a''
     = Inr ([], [([97], Some [97], 1)])"
  by code_simp+

lemma mixed_encode_parts:
  "get_style (available_styles example_externals) (available_normalizations example_externals)
     ''a AND AREA(0.2 0.8, 64 256, 1)'' ''comfy'' ''none''
     = (''comfy'', ''none'', ''a AND AREA(0.2 0.8, 64 256, 1)'')"
  "get_mask_size ''a AND AREA(0.2 0.8, 64 256, 1)''
     = Inr (''a AND AREA(0.2 0.8, 64 256, 1)'', (512, 512))"
  "map strip (split_AND False 0 (remove_all ''COMFYAND()'' ''a AND AREA(0.2 0.8, 64 256, 1)''))
     = ''a'' # [''AREA(0.2 0.8, 64 256, 1)'']"
  "get_sdxl ''a'' = (''a'', None)"
  "contains ''COMFYAND()'' ''a AND AREA(0.2 0.8, 64 256, 1)'' = False"
  "remove_all ''COMFYAND()'' ''a AND AREA(0.2 0.8, 64 256, 1)'' = ''a AND AREA(0.2 0.8, 64 256, 1)''"
  "sum_list (map (\<lambda>q. \<bar>fst (weight q)\<bar>)
     (filter (\<lambda>q. \<not> (contains ''AREA('' q \<or> contains ''MASK('' q))
        (''a'' # [''AREA(0.2 0.8, 64 256, 1)'']))) = 1"
  "do_encode example_externals [] ''a''
     = Inr [([97], empty_meta\<lparr>pooled_output := Some [97]\<rparr>)]"
  by code_simp+

theorem area_mask_units_witness:
  "get_area ''AREA(0.2 0.8, 64 256, 1)'' = Inl FormatError
   \<and> get_mask ''MASK(0.2 0.8, 64 256, 1)'' (4, 4) = Inl FormatError
   \<and> encode_loop example_externals [] ''comfy'' ''none'' (512, 512) False ''a'' None 1
        [''a'', ''AREA(0.2 0.8, 64 256, 1)''] ''a AND AREA(0.2 0.8, 64 256, 1)''
      = Inl FormatError
   \<and> do_encode example_externals [] ''a AND AREA(0.2 0.8, 64 256, 1)'' = Inl FormatError
   \<and> control_to_clip_common example_externals []
        \<lparr>entries = [(1 / 2, \<lparr>seg_prompt = ''a'', seg_loras = []\<rparr>),
                    (1, \<lparr>seg_prompt = ''AREA(0.2 0.8, 64 256, 1)'', seg_loras = []\<rparr>)],
         interpolations = []\<rparr> None
      = Inl FormatError
   \<and> get_area ''AREA(0 512, 64 256, 0.5)'' = Inr ([], Some (Pixels 32 64 8 0, 1 / 2))
   \<and> (\<exists>m. get_mask ''MASK(0 0.5, 0 1)'' (4, 4) = Inr ([], Some (m, 1)))
   \<and> get_mask ''MASK(0 0.5, 0 1)'' (- 1, 4) = Inl RuntimeError
   \<and> encode_loop example_externals [] ''comfy'' ''none'' (4, 4) False ''a'' None 1
        [''a'', ''MASK(0.2 0.8, 64 256, 1)''] ''a'' = Inl FormatError"
proof -
  let ?a = "\<lparr>seg_prompt = ''a'', seg_loras = []\<rparr>"
  let ?c = "\<lparr>seg_prompt = ''AREA(0.2 0.8, 64 256, 1)'', seg_loras = []\<rparr>"
  let ?S = "\<lparr>entries = [(1 / 2, ?a), (1, ?c)], interpolations = []\<rparr>"
  let ?init = "\<lparr>cur_clip = [], current_loras = [], cond_cache = Map.empty, calls = []\<rparr>"
  have "\<exists>conds st. schedule_loop example_externals [] ?S [(1 / 2, ?a)] 0 ?init = Inr (conds, st)
          \<and> cond_cache st (c_str example_externals ?c) = None
          \<and> cur_clip st = [] \<and> current_loras st = []"
    by (simp add: encode_def mixed_encode_parts(8) c_str_def)
  then obtain conds st where
    pre: "schedule_loop example_externals [] ?S [(1 / 2, ?a)] 0 ?init = Inr (conds, st)"
    and miss: "cond_cache st (c_str example_externals ?c) = None"
    and same: "cur_clip st = []" "current_loras st = []"
    by blast
  note mixed = area_mask_units [OF mixed_area_parts(1,2,3) mixed_area_parts(4,2,3),
      where cw = 4 and ch = 4 and prmpt = "''AREA(0.2 0.8, 64 256, 1)''"
        and mask_size = "(512, 512)" and stripped = "''AREA(0.2 0.8, 64 256, 1)''"
        and msk = None and err = FormatError and ext = example_externals and clp = "[]"
        and style = "''comfy''" and normalization = "''none''" and alt_method = False
        and p = "''a''" and sdxl_options = None and scale = 1
        and pre = "[''a'']" and ok = "([], [([97], Some [97], 1)])"
        and rest = "[]" and noise_text = "''a AND AREA(0.2 0.8, 64 256, 1)''"
        and whole = "''a AND AREA(0.2 0.8, 64 256, 1)''"
        and styled = "''a AND AREA(0.2 0.8, 64 256, 1)''"
        and sized = "''a AND AREA(0.2 0.8, 64 256, 1)''"
        and first = "''a''" and subs = "[''AREA(0.2 0.8, 64 256, 1)'']"
        and st = st and c = ?c and orig_clip = "[]" and start_pct = 0 and end_pct = 1
        and earlier = "[(1 / 2, ?a)]" and st0 = ?init and conds = conds
        and later = "[]" and schedule = ?S and cache = None]
  note pixel = area_mask_units [OF pixel_area_parts(1,2,3) pixel_area_parts(4,5,6),
      where cw = 4 and ch = 4 and prmpt = "''MASK(0.2 0.8, 64 256, 1)''"
        and mask_size = "(4, 4)" and err = FormatError and ext = example_externals
        and clp = "[]" and style = "''comfy''" and normalization = "''none''"
        and alt_method = False and p = "''a''" and sdxl_options = None and scale = 1
        and pre = "[''a'']" and ok = "([], [([97], Some [97], 1)])"
        and rest = "[]" and noise_text = "''a''"]
  note negative = area_mask_units [OF pixel_area_parts(1,2,3) pixel_area_parts(4,5,6),
      where cw = "- 1" and ch = 4]
  have area_mixed: "get_area ''AREA(0.2 0.8, 64 256, 1)'' = Inl FormatError"
    using mixed [THEN conjunct1] by (simp add: is_pct_def is_pixel_def)
  have mask_mixed: "get_mask ''MASK(0.2 0.8, 64 256, 1)'' (4, 4) = Inl FormatError"
    using mixed [THEN conjunct2, THEN conjunct2, THEN conjunct2, THEN conjunct1] by (simp add: is_pct_def is_pixel_def)
  have wne: "fst (weight ''AREA(0.2 0.8, 64 256, 1)'') \<noteq> 0"
    by (simp add: mixed_loop_parts(2))
  have ga: "get_area (snd (snd (weight ''AREA(0.2 0.8, 64 256, 1)''))) = Inl FormatError"
    by (simp add: mixed_loop_parts(2) area_mixed)
  have loop_area: "encode_loop example_externals [] ''comfy'' ''none'' (512, 512) False ''a'' None 1
        [''a'', ''AREA(0.2 0.8, 64 256, 1)''] ''a AND AREA(0.2 0.8, 64 256, 1)''
      = Inl FormatError"
    using mixed [THEN conjunct2, THEN conjunct2, THEN conjunct2, THEN conjunct2, THEN conjunct2, THEN conjunct2, THEN conjunct1, THEN mp,
        OF conjI [OF mixed_loop_parts(4) conjI [OF mixed_loop_parts(1) conjI [OF wne ga]]]]
    by (simp del: encode_loop.simps)
  have loop_whole: "encode_loop example_externals [] ''comfy'' ''none'' (512, 512)
        (contains ''COMFYAND()'' ''a AND AREA(0.2 0.8, 64 256, 1)'') ''a'' None
        (sum_list (map (\<lambda>q. \<bar>fst (weight q)\<bar>)
           (filter (\<lambda>q. \<not> (contains ''AREA('' q \<or> contains ''MASK('' q))
              (''a'' # [''AREA(0.2 0.8, 64 256, 1)'']))))
        (''a'' # [''AREA(0.2 0.8, 64 256, 1)''])
        (remove_all ''COMFYAND()'' ''a AND AREA(0.2 0.8, 64 256, 1)'') = Inl FormatError"
    unfolding mixed_encode_parts(5,6,7) by (rule loop_area)
  have enc_area: "do_encode example_externals [] ''a AND AREA(0.2 0.8, 64 256, 1)''
                    = Inl FormatError"
    by (rule mixed [THEN conjunct2, THEN conjunct2, THEN conjunct2, THEN conjunct2, THEN conjunct2, THEN conjunct2, THEN conjunct2, THEN conjunct1, THEN mp,
        OF conjI [OF mixed_encode_parts(1) conjI [OF mixed_encode_parts(2)
             conjI [OF mixed_encode_parts(3) conjI [OF mixed_encode_parts(4) loop_whole]]]]])
  have enc_miss: "do_encode example_externals
                    (if set (seg_loras ?c) \<noteq> set (current_loras st)
                     then load_clip_lora example_externals [] (seg_loras ?c) else cur_clip st)
                    (seg_prompt ?c) = Inl FormatError"
    by (simp add: same mixed_loop_parts(3))
  have enc: "encode example_externals [] st ?c = Inl FormatError"
    by (rule mixed [THEN conjunct2, THEN conjunct2, THEN conjunct2, THEN conjunct2, THEN conjunct2, THEN conjunct2, THEN conjunct2, THEN conjunct2, THEN conjunct1, THEN mp, OF conjI [OF miss enc_miss]])
  have i0: "interpolations ?S = []"
    by simp
  have lt: "(if [(1 / 2, ?a)] = [] then 0 else fst (last [(1 / 2, ?a)])) < (1 :: rat)"
    by simp
  have sched: "schedule_loop example_externals [] ?S (entries ?S) 0
                 \<lparr>cur_clip = [], current_loras = [],
                  cond_cache = (case None of Some m \<Rightarrow> m | None \<Rightarrow> Map.empty), calls = []\<rparr>
                 = Inl FormatError"
    using mixed [THEN conjunct2, THEN conjunct2, THEN conjunct2, THEN conjunct2, THEN conjunct2, THEN conjunct2, THEN conjunct2, THEN conjunct2, THEN conjunct2, THEN conjunct1, THEN mp, OF conjI [OF i0 conjI [OF pre conjI [OF lt enc]]]]
    by (simp del: schedule_loop.simps)
  have ctrl: "control_to_clip_common example_externals [] ?S None = Inl FormatError"
    by (rule mixed [THEN conjunct2, THEN conjunct2, THEN conjunct2, THEN conjunct2, THEN conjunct2, THEN conjunct2, THEN conjunct2, THEN conjunct2, THEN conjunct2, THEN conjunct2, THEN mp, OF sched])
  have area_pixel: "get_area ''AREA(0 512, 64 256, 0.5)'' = Inr ([], Some (Pixels 32 64 8 0, 1 / 2))"
  proof -
    have "safe_float ([''0 512'', ''64 256'', ''0.5''] ! 2) 1 = 1 / 2" by code_simp
    then show ?thesis
      using pixel [THEN conjunct2, THEN conjunct2, THEN conjunct1] by (simp add: is_pct_def is_pixel_def)
  qed
  have mask_pct: "\<exists>m. get_mask ''MASK(0 0.5, 0 1)'' (4, 4) = Inr ([], Some (m, 1))"
  proof -
    have "safe_float ([''0 0.5'', ''0 1'', ''1''] ! 2) 1 = 1" by code_simp
    then show ?thesis
      using pixel [THEN conjunct2, THEN conjunct2, THEN conjunct2, THEN conjunct2, THEN conjunct1] by (simp add: is_pct_def is_pixel_def)
  qed
  have mask_neg: "get_mask ''MASK(0 0.5, 0 1)'' (- 1, 4) = Inl RuntimeError"
    using negative [THEN conjunct2, THEN conjunct2, THEN conjunct2, THEN conjunct2, THEN conjunct1] by (simp add: is_pct_def is_pixel_def)
  have loop_mask: "encode_loop example_externals [] ''comfy'' ''none'' (4, 4) False ''a'' None 1
        [''a'', ''MASK(0.2 0.8, 64 256, 1)''] ''a'' = Inl FormatError"
    using pixel [THEN conjunct2, THEN conjunct2, THEN conjunct2, THEN conjunct2, THEN conjunct2, THEN conjunct1, THEN mp, OF conjI [OF mixed_loop_parts(5) mask_mixed]]
    by (simp del: encode_loop.simps)
  from area_mixed mask_mixed loop_area enc_area ctrl area_pixel mask_pct mask_neg loop_mask
  show ?thesis by (intro conjI)
qed

text \<open>
  The claim as stated fails in four ways. \<open>AREA(0 0, 0 0, 1)\<close>: the four values are pixel
  magnitudes (zero), and the area returned is the percentage area, not the values divided by
  8. A second directive with mixed units, after a first one in percentages, raises nothing:
  only the first is read. A sub-prompt of weight 0 with a mixed-unit \<open>AREA\<close> raises nothing:
  the loop skips it before \<open>get_area\<close>. And a \<open>MASK\<close> in percentages raises, though not the
  format error, when \<open>MASK_SIZE\<close> gives a negative dimension.
\<close>

theorem area_mask_directive_counterexample:
  "list_all is_pixel [0, 0, 0, 0]
   \<and> get_area ''AREA(0 0, 0 0, 1)'' = Inr ([], Some (Percentage 0 0 0 0, 1))
   \<and> get_area ''AREA(0 1, 0 1) AREA(0.2 0.8, 64 256, 1)''
       = Inr ('' '', Some (Percentage 1 1 0 0, 1))
   \<and> get_mask ''MASK(0 1, 0 1) MASK(0.2 0.8, 64 256, 1)'' (2, 2)
       = Inr ('' '', Some ([[[1, 1], [1, 1]]], 1))
   \<and> do_encode example_externals [] ''b AREA(0.2 0.8, 64 256, 1):0'' = Inr []
   \<and> get_mask ''MASK(0 1, 0 1)'' (- 1, 4) = Inl RuntimeError
   \<and> do_encode example_externals [] ''MASK_SIZE(-1, 4) a MASK(0 1, 0 1)'' = Inl RuntimeError"
  by code_simp

section \<open>Properties of the orchestrator\<close>

lemma encode_once:
  assumes "encoded_once ext cache0 st" and "encode ext orig_clip st c = Inr (r, st')"
  shows "encoded_once ext cache0 st'"
proof (cases "cond_cache st (c_str ext c)")
  case (Some v)
  then show ?thesis
    using assms by (simp add: encode_def)
next
  case None
  then have k: "c_str ext c \<notin> dom (cond_cache st)"
    by (simp add: domIff)
  define st1 where "st1 = (if set (seg_loras c) \<noteq> set (current_loras st)
                      then st\<lparr>cur_clip := load_clip_lora ext orig_clip (seg_loras c),
                              current_loras := seg_loras c\<rparr>
                      else st)"
  have st1: "cond_cache st1 = cond_cache st" "calls st1 = calls st"
    by (simp_all add: st1_def)
  have st': "st' = st1\<lparr>cond_cache := (cond_cache st1)(c_str ext c \<mapsto> r), calls := calls st1 @ [c]\<rparr>"
    using assms(2) None unfolding encode_def Let_def st1_def [symmetric]
    by (simp split: sum.splits)
  show ?thesis
    using assms(1) k unfolding encoded_once_def st' by (auto simp: st1)
qed

lemma encode_steps_once:
  assumes "encoded_once ext cache0 st"
    and "encode_steps ext orig_clip schedule st ss = Inr (cps, st')"
  shows "encoded_once ext cache0 st'"
  using assms
proof (induction ss arbitrary: st cps)
  case Nil
  then show ?case by simp
next
  case (Cons s ss)
  from Cons.prems(2) obtain e cnd st1 cps' where
    a: "at_step schedule s = Inr e" "encode ext orig_clip st (snd e) = Inr (cnd, st1)"
       "encode_steps ext orig_clip schedule st1 ss = Inr (cps', st')"
    by (auto split: sum.splits)
  show ?case
    using Cons.IH [OF encode_once [OF Cons.prems(1) a(2)] a(3)] .
qed

lemma get_control_points_once:
  assumes "encoded_once ext cache0 st"
    and "get_control_points ext orig_clip schedule steps st = Inr (cps, st')"
  shows "encoded_once ext cache0 st'"
  using assms encode_steps_once
  by (auto simp: get_control_points_def split: if_splits)

lemma interpolate_specs_once:
  assumes "encoded_once ext cache0 st"
    and "interpolate_specs ext orig_clip schedule min_step start_pct end_pct specs st nsp
           = Inr (conds, st', nsp')"
  shows "encoded_once ext cache0 st'"
  using assms
proof (induction specs arbitrary: st nsp conds)
  case Nil
  then show ?case by simp
next
  case (Cons i specs)
  from Cons.prems(2) obtain control_points st1 cs conds' where
    a: "get_control_points ext orig_clip schedule (fst i) st = Inr (control_points, st1)"
       "interpolate_specs ext orig_clip schedule min_step start_pct end_pct specs st1
          (max nsp (min (last (fst i)) end_pct)) = Inr (conds', st', nsp')"
    by (auto simp: Let_def split: sum.splits)
  show ?case
    using Cons.IH [OF get_control_points_once [OF Cons.prems(1) a(1)] a(2)] .
qed

lemma schedule_loop_once:
  assumes "encoded_once ext cache0 st"
    and "schedule_loop ext orig_clip schedule es start_pct st = Inr (conds, st')"
  shows "encoded_once ext cache0 st'"
  using assms
proof (induction es arbitrary: st start_pct conds)
  case Nil
  then show ?case by simp
next
  case (Cons e es)
  obtain end_pct c where e: "e = (end_pct, c)" by (cases e)
  let ?specs = "filter (\<lambda>i. (hd (fst i) \<le> start_pct \<and> start_pct < last (fst i))
                                 \<or> (hd (fst i) < end_pct \<and> start_pct < last (fst i)))
                       (interpolations schedule)"
  from Cons.prems(2) obtain conds1 st1 start_pct1 conds2 st2 conds3 where
    a: "(if ?specs = [] then Inr ([], st, start_pct)
         else interpolate_specs ext orig_clip schedule (Min (set (map snd ?specs)))
                start_pct end_pct ?specs st start_pct) = Inr (conds1, st1, start_pct1)"
    and b: "(if start_pct1 < end_pct
             then (case encode ext orig_clip st1 c of
                     Inl err \<Rightarrow> Inl err
                   | Inr (cnd, st2) \<Rightarrow>
                       Inr (map (stamp start_pct1 end_pct (seg_prompt c)) cnd, st2))
             else Inr ([], st1)) = Inr (conds2, st2)"
    and c: "schedule_loop ext orig_clip schedule es end_pct st2 = Inr (conds3, st')"
    unfolding e by (auto simp: Let_def split: sum.splits if_splits)
  have 1: "encoded_once ext cache0 st1"
    using a Cons.prems(1) interpolate_specs_once by (auto split: if_splits)
  have 2: "encoded_once ext cache0 st2"
    using b 1 encode_once by (auto split: if_splits sum.splits)
  show ?case
    using Cons.IH [OF 2 c] .
qed

lemma run_schedule_once:
  assumes "run_schedule ext clp schedules cache = Inr (conds, st)"
  shows "encoded_once ext (case cache of Some m \<Rightarrow> m | None \<Rightarrow> Map.empty) st"
proof -
  have "encoded_once ext (case cache of Some m \<Rightarrow> m | None \<Rightarrow> Map.empty)
          \<lparr>cur_clip = clp, current_loras = [],
           cond_cache = (case cache of Some m \<Rightarrow> m | None \<Rightarrow> Map.empty), calls = []\<rparr>"
    by (simp add: encoded_once_def)
  then show ?thesis
    using assms schedule_loop_once unfolding run_schedule_def by blast
qed

lemma filter_same_key:
  assumes "distinct (map f xs)" and "k \<in> set xs"
  shows "filter (\<lambda>x. f k = f x) xs = [k]"
  using assms
proof (induction xs)
  case Nil
  then show ?case by simp
next
  case (Cons x xs)
  show ?case
  proof (cases "k = x")
    case True
    have "filter (\<lambda>y. f x = f y) xs = []"
      using Cons.prems(1) by (auto simp: filter_empty_conv)
    then show ?thesis using True by simp
  next
    case False
    then have "k \<in> set xs" using Cons.prems(2) by simp
    moreover have "f k \<noteq> f x"
      using Cons.prems(1) \<open>k \<in> set xs\<close> by (auto simp: image_iff)
    ultimately show ?thesis
      using Cons by simp
  qed
qed

lemma sort_key_same_items:
  fixes l l' :: "(string \<times> rat) list"
  assumes "distinct (map fst l)" and "distinct (map fst l')" and "set l = set l'"
  shows "sort_key fst l = sort_key fst l'"
proof (rule properties_for_sort_key)
  have dl: "distinct l" and dl': "distinct l'"
    using assms(1,2) by (auto simp: distinct_map)
  show "mset (sort_key fst l') = mset l"
    using dl dl' assms(3) by (simp add: set_eq_iff_mset_eq_distinct)
  show "sorted (map fst (sort_key fst l'))"
    by simp
  fix k assume "k \<in> set (sort_key fst l')"
  then have k: "k \<in> set l'" "k \<in> set l"
    using assms(3) by simp_all
  have "distinct (map fst (sort_key fst l'))"
    using assms(2) by (simp add: distinct_map inj_on_def)
  then have "filter (\<lambda>x. fst k = fst x) (sort_key fst l') = [k]"
    using k(1) by (intro filter_same_key) simp_all
  moreover have "filter (\<lambda>x. fst k = fst x) l = [k]"
    using assms(1) k(2) by (rule filter_same_key)
  ultimately show "filter (\<lambda>x. fst k = fst x) (sort_key fst l') = filter (\<lambda>x. fst k = fst x) l"
    by simp
qed

lemma c_str_same_items:
  assumes "seg_prompt c2 = seg_prompt c1" and "set (seg_loras c2) = set (seg_loras c1)"
    and "distinct (map fst (seg_loras c1))" and "distinct (map fst (seg_loras c2))"
  shows "c_str ext c2 = c_str ext c1"
  using sort_key_same_items [OF assms(4,3,2)] assms(1) by (simp add: c_str_def)

lemma encode_again:
  assumes "encode ext orig_clip s1 c1 = Inr (r, s2)" and "c_str ext c2 = c_str ext c1"
  shows "encode ext orig_clip s2 c2 = Inr (r, s2)"
proof -
  have "cond_cache s2 (c_str ext c1) = Some r"
    using assms(1)
    by (cases "cond_cache s1 (c_str ext c1)")
       (auto simp: encode_def Let_def split: sum.splits if_splits)
  then show ?thesis
    by (simp add: encode_def assms(2))
qed

text \<open>
  C5. In a run of the orchestrator that returns, the invocations of \<open>do_encode\<close> have
  pairwise distinct cache keys, none of them a key of the cache passed by the caller: the
  encoder runs at most once per key, hence per prompt text and LoRA dictionary. The key of a
  segment configuration depends only on the prompt and the items of the dictionary, not on
  their order. Once a configuration has been encoded, encoding one with the same prompt and
  the same items returns the same list and leaves the state, and with it the record of
  invocations, unchanged.
\<close>

theorem encode_at_most_once:
  assumes "run_schedule ext clp schedules cache = Inr (conds, st)"
    and "encode ext orig_clip s1 c1 = Inr (r, s2)"
    and "seg_prompt c2 = seg_prompt c1" and "set (seg_loras c2) = set (seg_loras c1)"
    and "distinct (map fst (seg_loras c1))" and "distinct (map fst (seg_loras c2))"
  shows "distinct (map (c_str ext) (calls st))
       \<and> c_str ext ` set (calls st) \<inter> dom (case cache of Some m \<Rightarrow> m | None \<Rightarrow> Map.empty) = {}
       \<and> c_str ext c2 = c_str ext c1
       \<and> encode ext orig_clip s2 c2 = Inr (r, s2)
       \<and> calls s2 = (if cond_cache s1 (c_str ext c1) = None then calls s1 @ [c1] else calls s1)"
proof -
  have k: "c_str ext c2 = c_str ext c1"
    using assms(3-6) by (rule c_str_same_items)
  have "calls s2 = (if cond_cache s1 (c_str ext c1) = None then calls s1 @ [c1] else calls s1)"
    using assms(2) by (auto simp: encode_def Let_def split: sum.splits if_splits)
  then show ?thesis
    using run_schedule_once [OF assms(1)] k encode_again [OF assms(2) k]
    by (simp add: encoded_once_def)
qed


theorem encode_at_most_once_witness:
  "\<exists>conds st r s2.
     run_schedule example_externals []
       \<lparr>entries = [(1 / 4, \<lparr>seg_prompt = ''a'', seg_loras = []\<rparr>),
                   (1 / 2, \<lparr>seg_prompt = ''b'', seg_loras = []\<rparr>),
                   (1, \<lparr>seg_prompt = ''a'', seg_loras = []\<rparr>)],
        interpolations = []\<rparr> None = Inr (conds, st)
     \<and> calls st = [\<lparr>seg_prompt = ''a'', seg_loras = []\<rparr>, \<lparr>seg_prompt = ''b'', seg_loras = []\<rparr>]
     \<and> distinct (map (c_str example_externals) (calls st))
     \<and> encode example_externals []
          \<lparr>cur_clip = [], current_loras = [], cond_cache = Map.empty, calls = []\<rparr>
          \<lparr>seg_prompt = ''a'', seg_loras = [(''x'', 1), (''y'', 2)]\<rparr> = Inr (r, s2)
     \<and> encode example_externals [] s2
          \<lparr>seg_prompt = ''a'', seg_loras = [(''y'', 2), (''x'', 1)]\<rparr> = Inr (r, s2)
     \<and> calls s2 = [\<lparr>seg_prompt = ''a'', seg_loras = [(''x'', 1), (''y'', 2)]\<rparr>]"
proof -
  let ?S = "\<lparr>entries = [(1 / 4, \<lparr>seg_prompt = ''a'', seg_loras = []\<rparr>),
                   (1 / 2, \<lparr>seg_prompt = ''b'', seg_loras = []\<rparr>),
                   (1, \<lparr>seg_prompt = ''a'', seg_loras = []\<rparr>)],
        interpolations = []\<rparr>"
  let ?s0 = "\<lparr>cur_clip = [], current_loras = [], cond_cache = Map.empty, calls = []\<rparr>"
  let ?c1 = "\<lparr>seg_prompt = ''a'', seg_loras = [(''x'', 1), (''y'', 2)]\<rparr>"
  let ?c2 = "\<lparr>seg_prompt = ''a'', seg_loras = [(''y'', 2), (''x'', 1)]\<rparr>"
  have "case run_schedule example_externals [] ?S None of
          Inl err \<Rightarrow> False
        | Inr (conds, st) \<Rightarrow>
            calls st = [\<lparr>seg_prompt = ''a'', seg_loras = []\<rparr>, \<lparr>seg_prompt = ''b'', seg_loras = []\<rparr>]"
    by code_simp
  then obtain conds st where run: "run_schedule example_externals [] ?S None = Inr (conds, st)"
    and cs: "calls st = [\<lparr>seg_prompt = ''a'', seg_loras = []\<rparr>, \<lparr>seg_prompt = ''b'', seg_loras = []\<rparr>]"
    by (auto split: sum.splits)
  have "case encode example_externals [] ?s0 ?c1 of Inl err \<Rightarrow> False | Inr p \<Rightarrow> True"
    by code_simp
  then obtain r s2 where enc: "encode example_externals [] ?s0 ?c1 = Inr (r, s2)"
    by (auto split: sum.splits)
  have same: "seg_prompt ?c2 = seg_prompt ?c1" "set (seg_loras ?c2) = set (seg_loras ?c1)"
    "distinct (map fst (seg_loras ?c1))" "distinct (map fst (seg_loras ?c2))"
    by auto
  from encode_at_most_once [OF run enc same]
  have "distinct (map (c_str example_externals) (calls st))"
    and "encode example_externals [] s2 ?c2 = Inr (r, s2)"
    and "calls s2 = [?c1]"
    by simp_all
  with run cs enc show ?thesis
    by blast
qed


















end
